theory Spec2Isabelle
  imports Main "HOL-Library.AList" "HOL-Library.Multiset"
begin

section \<open>Strings as the source uses them\<close>

text \<open>
  Strings are lists of 8-bit characters. \<open>trim\<close> is \<open>String.prototype.trim\<close> restricted
  to the white space representable in that range (tab, line feed, vertical tab, form feed,
  carriage return, space, no-break space); \<open>toLowerCase\<close> maps the ASCII capitals and
  leaves every other character alone.
\<close>

definition isWhiteSpace :: "char \<Rightarrow> bool" where
  "isWhiteSpace c = (of_char c \<in> {9, 10, 11, 12, 13, 32, 160 :: nat})"


definition lowerChar :: "char \<Rightarrow> char" where
  "lowerChar c =
     (let n = (of_char c :: nat) in if 65 \<le> n \<and> n \<le> 90 then char_of (n + 32) else c)"

definition toLowerCase :: "string \<Rightarrow> string" where
  "toLowerCase s = map lowerChar s"

fun startsWith :: "string \<Rightarrow> string \<Rightarrow> bool" where
  "startsWith s [] = True"
| "startsWith [] (p # ps) = False"
| "startsWith (c # cs) (p # ps) = (c = p \<and> startsWith cs ps)"

fun includesStr :: "string \<Rightarrow> string \<Rightarrow> bool" where
  "includesStr [] sub = (sub = [])"
| "includesStr (c # cs) sub = (startsWith (c # cs) sub \<or> includesStr cs sub)"

definition isDigit :: "char \<Rightarrow> bool" where
  "isDigit c = (48 \<le> (of_char c :: nat) \<and> (of_char c :: nat) \<le> 57)"

definition digitsToNat :: "string \<Rightarrow> nat" where
  "digitsToNat ds = foldl (\<lambda>acc c. 10 * acc + (of_char c - 48)) 0 ds"

section \<open>Errors and the exception discipline\<close>

datatype error =
    AccountNotFound string
  | AliasIsEmail string string
  | AliasInUse string string
  | MessageNotFound string string
  | AttachmentNotFound string
  | NoValidUids
  | FetchFailed string
  | ProtocolError string

text \<open>
  A method of the source is a state transformer that either returns a value or throws;
  a throw keeps the state as it was at the throw. \<open>andThen\<close> is the semicolon.
\<close>

type_synonym ('s, 'a) action = "'s \<Rightarrow> (error + 'a) \<times> 's"

definition ret :: "'a \<Rightarrow> ('s, 'a) action" where
  "ret a s = (Inr a, s)"

definition throw :: "error \<Rightarrow> ('s, 'a) action" where
  "throw e s = (Inl e, s)"

definition andThen :: "('s, 'a) action \<Rightarrow> ('a \<Rightarrow> ('s, 'b) action) \<Rightarrow> ('s, 'b) action" where
  "andThen m f s = (case m s of (Inl e, s') \<Rightarrow> (Inl e, s') | (Inr a, s') \<Rightarrow> f a s')"

definition modify :: "('s \<Rightarrow> 's) \<Rightarrow> ('s, unit) action" where
  "modify g s = (Inr (), g s)"

definition whenA :: "bool \<Rightarrow> ('s, unit) action \<Rightarrow> ('s, unit) action" where
  "whenA b m = (if b then m else ret ())"

section \<open>The account manager\<close>

text \<open>
  The repository has two account managers with the same shape: the Gmail one
  (\<^verbatim>\<open>src/account-manager.ts\<close>) and the iCloud one (\<^verbatim>\<open>packages/icloud/src/account-manager.ts\<close>).
  Their registry entries share four fields; the Gmail entry adds the granted scopes.
  \<open>lastUsed\<close> is the reading of the clock, which the operations take as an argument.
\<close>

record AccountInfo =
  email :: string
  alias_opt :: "string option"
  credentialsPath :: string
  lastUsed :: nat

record GmailAccountInfo = AccountInfo +
  scopes :: "string list"

record AccountCredentials =
  cred_email :: string
  appPassword :: string

text \<open>
  The registry is a plain JavaScript object keyed by email: an association list of its own
  properties with distinct keys, in the order of their creation, where assignment to an
  existing key keeps its place and assignment to a new key appends (\<open>AList.update\<close>).

  \<^verbatim>\<open>for (const email in this.registry)\<close> visits the own keys that are array indices
  (canonical decimal numerals up to 4294967294) first, in ascending numeric order, and then
  the other keys in the order of their creation (\<open>forIn\<close>). The test
  \<^verbatim>\<open>if (this.registry[k])\<close> is a test of truthiness on a plain object: it holds for an own entry and also for every name that the object inherits from
  \<^verbatim>\<open>Object.prototype\<close> (\<open>hasEntry\<close>); \<open>registered\<close> is the narrower fact that \<open>k\<close> is the
  key of an entry. \<^verbatim>\<open>Object.prototype\<close> is taken as the runtime provides it; an
  assignment through an inherited member changes that member and not the registry, and
  lies outside the store.

  The store is the manager's memory (\<open>registry\<close>) and the three kinds of files it
  owns: the registry file, one credential file per path, and the active-account file.
  File operations themselves do not fail in this model, and \<open>path_join\<close> is
  \<^verbatim>\<open>path.join\<close> on a file name without separators, where nothing is normalised.
\<close>

record ('i, 'c) store =
  registry :: "(string \<times> 'i) list"
  registry_file :: "(string \<times> 'i) list option"
  cred_files :: "string \<rightharpoonup> 'c"
  active_file :: "string option"

definition empty_store :: "('i, 'c) store" where
  "empty_store = \<lparr>registry = [], registry_file = None, cred_files = Map.empty, active_file = None\<rparr>"

definition objectPrototypeKeys :: "string list" where
  "objectPrototypeKeys =
     [''constructor'', ''__defineGetter__'', ''__defineSetter__'', ''hasOwnProperty'',
      ''__lookupGetter__'', ''__lookupSetter__'', ''isPrototypeOf'', ''propertyIsEnumerable'',
      ''toString'', ''valueOf'', ''__proto__'', ''toLocaleString'']"

definition registered :: "(string \<times> 'i) list \<Rightarrow> string \<Rightarrow> bool" where
  "registered r k = (map_of r k \<noteq> None)"

definition hasEntry :: "(string \<times> 'i) list \<Rightarrow> string \<Rightarrow> bool" where
  "hasEntry r k = (map_of r k \<noteq> None \<or> k \<in> set objectPrototypeKeys)"

definition indexValue :: "string \<Rightarrow> int" where
  "indexValue ds = foldl (\<lambda>acc c. 10 * acc + (of_char c - 48)) 0 ds"

definition isArrayIndex :: "string \<Rightarrow> bool" where
  "isArrayIndex k =
     (case k of
        [] \<Rightarrow> False
      | c # cs \<Rightarrow>
          list_all isDigit k \<and> (cs = [] \<or> c \<noteq> CHR ''0'') \<and> indexValue k \<le> 4294967294)"

definition forIn :: "(string \<times> 'i) list \<Rightarrow> (string \<times> 'i) list" where
  "forIn r =
     sort_key (\<lambda>e. indexValue (fst e)) (filter (\<lambda>e. isArrayIndex (fst e)) r)
       @ filter (\<lambda>e. \<not> isArrayIndex (fst e)) r"

definition path_join :: "string \<Rightarrow> string \<Rightarrow> string" where
  "path_join dir name = dir @ ''/'' @ name"

definition saveRegistry :: "(('i, 'c) store, unit) action" where
  "saveRegistry = modify (\<lambda>s. s\<lparr>registry_file := Some (registry s)\<rparr>)"

definition listAccounts :: "(string \<times> 'a AccountInfo_scheme) list \<Rightarrow> 'a AccountInfo_scheme list" where
  "listAccounts r = sort_key (\<lambda>a. - int (lastUsed a)) (map snd (forIn r))"


fun searchByAlias :: "(string \<times> 'a AccountInfo_scheme) list \<Rightarrow> string \<Rightarrow> string option" where
  "searchByAlias [] emailOrAlias = None"
| "searchByAlias ((e, info) # rest) emailOrAlias =
     (if alias_opt info = Some emailOrAlias then Some e else searchByAlias rest emailOrAlias)"

definition resolveEmailFromAlias :: "(string \<times> 'a AccountInfo_scheme) list \<Rightarrow> string \<Rightarrow> string" where
  "resolveEmailFromAlias r emailOrAlias =
     (if hasEntry r emailOrAlias then emailOrAlias
      else case searchByAlias (forIn r) emailOrAlias of
             Some e \<Rightarrow> e
           | None \<Rightarrow> emailOrAlias)"

definition setActiveAccount ::
  "nat \<Rightarrow> string \<Rightarrow> (('a AccountInfo_scheme, 'c) store, unit) action"
where
  "setActiveAccount now emailOrAlias =
     (\<lambda>s. let em = resolveEmailFromAlias (registry s) emailOrAlias in
        (andThen (whenA (\<not> hasEntry (registry s) em) (throw (AccountNotFound emailOrAlias))) (\<lambda>_.
         andThen (modify (\<lambda>s. s\<lparr>active_file := Some em\<rparr>)) (\<lambda>_.
         andThen (modify (\<lambda>s. s\<lparr>registry :=
                    AList.map_entry em (\<lambda>i. i\<lparr>lastUsed := now\<rparr>) (registry s)\<rparr>)) (\<lambda>_.
         saveRegistry)))) s)"


subsection \<open>The iCloud manager: alias checks before any write\<close>

fun ensureAliasAvailable ::
  "(string \<times> 'a AccountInfo_scheme) list \<Rightarrow> string \<Rightarrow> string \<Rightarrow> error + unit"
where
  "ensureAliasAvailable [] a ownerEmail = Inr ()"
| "ensureAliasAvailable ((e, info) # rest) a ownerEmail =
     (if a = e \<and> e \<noteq> ownerEmail then Inl (AliasIsEmail a e)
      else if alias_opt info = Some a \<and> e \<noteq> ownerEmail then Inl (AliasInUse a e)
      else ensureAliasAvailable rest a ownerEmail)"

definition ensureAliasAvailableA ::
  "string \<Rightarrow> string \<Rightarrow> (('a AccountInfo_scheme, 'c) store, unit) action"
where
  "ensureAliasAvailableA a ownerEmail =
     (\<lambda>s. case ensureAliasAvailable (forIn (registry s)) a ownerEmail of
             Inl e \<Rightarrow> throw e s
           | Inr u \<Rightarrow> ret () s)"

definition truthy :: "string option \<Rightarrow> bool" where
  "truthy x = (case x of None \<Rightarrow> False | Some v \<Rightarrow> v \<noteq> [])"

definition icloud_addAccount ::
  "string \<Rightarrow> nat \<Rightarrow> nat \<Rightarrow> AccountCredentials \<Rightarrow> string option
     \<Rightarrow> ((AccountInfo, AccountCredentials) store, unit) action"
where
  "icloud_addAccount accountsDir now now' credentials al =
     (let em = cred_email credentials;
          pw = appPassword credentials;
          cpath = path_join accountsDir (em @ ''.json'') in
      andThen (case al of None \<Rightarrow> ret ()
               | Some a \<Rightarrow> whenA (a \<noteq> []) (ensureAliasAvailableA a em)) (\<lambda>_.
      andThen (modify (\<lambda>s. s\<lparr>cred_files :=
                 (cred_files s)(cpath \<mapsto> \<lparr>cred_email = em, appPassword = pw\<rparr>)\<rparr>)) (\<lambda>_.
      andThen (modify (\<lambda>s. s\<lparr>registry := AList.update em
                 \<lparr>email = em, alias_opt = al, credentialsPath = cpath, lastUsed = now\<rparr>
                 (registry s)\<rparr>)) (\<lambda>_.
      andThen saveRegistry (\<lambda>_.
      (\<lambda>s. whenA (length (listAccounts (registry s)) = 1) (setActiveAccount now' em) s))))))"

definition icloud_setAlias ::
  "string \<Rightarrow> string \<Rightarrow> (('a AccountInfo_scheme, 'c) store, unit) action"
where
  "icloud_setAlias emailOrAlias newAlias =
     (\<lambda>s. let em = resolveEmailFromAlias (registry s) emailOrAlias in
        (andThen (whenA (\<not> hasEntry (registry s) em) (throw (AccountNotFound emailOrAlias))) (\<lambda>_.
         andThen (ensureAliasAvailableA newAlias em) (\<lambda>_.
         andThen (modify (\<lambda>s. s\<lparr>registry :=
                    AList.map_entry em (\<lambda>i. i\<lparr>alias_opt := Some newAlias\<rparr>) (registry s)\<rparr>)) (\<lambda>_.
         saveRegistry)))) s)"

subsection \<open>The Gmail manager\<close>

text \<open>
  \<open>addAccount\<close> here writes at once, with no alias check; \<open>setAlias\<close> compares the new
  alias with the other entries' aliases only. The cache of OAuth clients, which
  \<open>removeAccount\<close> also clears, is not part of the store.
\<close>

definition defaultScopes :: "string list" where
  "defaultScopes = [''https://www.googleapis.com/auth/gmail.modify'',
                    ''https://www.googleapis.com/auth/gmail.settings.basic'']"

definition gmail_addAccount ::
  "string \<Rightarrow> nat \<Rightarrow> nat \<Rightarrow> string \<Rightarrow> 'c \<Rightarrow> string option \<Rightarrow> string list option
     \<Rightarrow> ((GmailAccountInfo, 'c) store, unit) action"
where
  "gmail_addAccount accountsDir now now' em credentials al scs =
     (let cpath = path_join accountsDir (em @ ''.json'') in
      andThen (modify (\<lambda>s. s\<lparr>cred_files := (cred_files s)(cpath \<mapsto> credentials)\<rparr>)) (\<lambda>_.
      andThen (modify (\<lambda>s. s\<lparr>registry := AList.update em
                 \<lparr>email = em, alias_opt = al, credentialsPath = cpath, lastUsed = now,
                  scopes = (case scs of Some v \<Rightarrow> v | None \<Rightarrow> defaultScopes)\<rparr>
                 (registry s)\<rparr>)) (\<lambda>_.
      andThen saveRegistry (\<lambda>_.
      (\<lambda>s. whenA (length (listAccounts (registry s)) = 1) (setActiveAccount now' em) s)))))"

fun aliasTaken ::
  "(string \<times> 'a AccountInfo_scheme) list \<Rightarrow> string \<Rightarrow> string \<Rightarrow> error + unit"
where
  "aliasTaken [] newAlias em = Inr ()"
| "aliasTaken ((e, info) # rest) newAlias em =
     (if alias_opt info = Some newAlias \<and> e \<noteq> em then Inl (AliasInUse newAlias e)
      else aliasTaken rest newAlias em)"

definition gmail_setAlias ::
  "string \<Rightarrow> string \<Rightarrow> (('a AccountInfo_scheme, 'c) store, unit) action"
where
  "gmail_setAlias emailOrAlias newAlias =
     (\<lambda>s. let em = resolveEmailFromAlias (registry s) emailOrAlias in
        (andThen (whenA (\<not> hasEntry (registry s) em) (throw (AccountNotFound emailOrAlias))) (\<lambda>_.
         andThen (\<lambda>s. case aliasTaken (forIn (registry s)) newAlias em of
                         Inl e \<Rightarrow> throw e s | Inr u \<Rightarrow> ret () s) (\<lambda>_.
         andThen (modify (\<lambda>s. s\<lparr>registry :=
                    AList.map_entry em (\<lambda>i. i\<lparr>alias_opt := Some newAlias\<rparr>) (registry s)\<rparr>)) (\<lambda>_.
         saveRegistry)))) s)"

subsection \<open>Predicates and sample stores for the account manager\<close>

definition is_collision :: "error \<Rightarrow> bool" where
  "is_collision e = (case e of AliasIsEmail a b \<Rightarrow> True | AliasInUse a b \<Rightarrow> True | _ \<Rightarrow> False)"

definition shareAlias :: "(string \<times> 'a AccountInfo_scheme) list \<Rightarrow> bool" where
  "shareAlias r = (\<exists>(e1, i1) \<in> set r. \<exists>(e2, i2) \<in> set r.
       e1 \<noteq> e2 \<and> truthy (alias_opt i1) \<and> alias_opt i1 = alias_opt i2)"

definition aliasShadowsEmail :: "(string \<times> 'a AccountInfo_scheme) list \<Rightarrow> bool" where
  "aliasShadowsEmail r = (\<exists>(e1, i1) \<in> set r. \<exists>(e2, i2) \<in> set r.
       e1 \<noteq> e2 \<and> alias_opt i1 = Some e2)"

definition credA :: AccountCredentials where
  "credA = \<lparr>cred_email = ''a@icloud.com'', appPassword = ''pw-a''\<rparr>"

definition credB :: AccountCredentials where
  "credB = \<lparr>cred_email = ''b@icloud.com'', appPassword = ''pw-b''\<rparr>"

definition infoA :: AccountInfo where
  "infoA = \<lparr>email = ''a@icloud.com'', alias_opt = Some ''home'',
            credentialsPath = ''d/a@icloud.com.json'', lastUsed = 1\<rparr>"

definition infoB :: AccountInfo where
  "infoB = \<lparr>email = ''b@icloud.com'', alias_opt = Some ''work'',
            credentialsPath = ''d/b@icloud.com.json'', lastUsed = 2\<rparr>"

definition storeA :: "(AccountInfo, AccountCredentials) store" where
  "storeA = \<lparr>registry = [(''a@icloud.com'', infoA)],
             registry_file = Some [(''a@icloud.com'', infoA)],
             cred_files = [''d/a@icloud.com.json'' \<mapsto> credA],
             active_file = Some ''a@icloud.com''\<rparr>"

definition storeAB :: "(AccountInfo, AccountCredentials) store" where
  "storeAB = \<lparr>registry = [(''a@icloud.com'', infoA), (''b@icloud.com'', infoB)],
              registry_file = Some [(''a@icloud.com'', infoA), (''b@icloud.com'', infoB)],
              cred_files = [''d/a@icloud.com.json'' \<mapsto> credA, ''d/b@icloud.com.json'' \<mapsto> credB],
              active_file = Some ''a@icloud.com''\<rparr>"

definition storeA_nofile :: "(AccountInfo, AccountCredentials) store" where
  "storeA_nofile = storeA\<lparr>cred_files := Map.empty\<rparr>"

definition ginfoA :: GmailAccountInfo where
  "ginfoA = \<lparr>email = ''a@gmail.com'', alias_opt = Some ''home'',
             credentialsPath = ''d/a@gmail.com.json'', lastUsed = 1, scopes = defaultScopes\<rparr>"

definition ginfoB :: GmailAccountInfo where
  "ginfoB = \<lparr>email = ''b@gmail.com'', alias_opt = Some ''work'',
             credentialsPath = ''d/b@gmail.com.json'', lastUsed = 2, scopes = defaultScopes\<rparr>"

definition gstoreA :: "(GmailAccountInfo, string) store" where
  "gstoreA = \<lparr>registry = [(''a@gmail.com'', ginfoA)],
              registry_file = Some [(''a@gmail.com'', ginfoA)],
              cred_files = [''d/a@gmail.com.json'' \<mapsto> ''token-a''],
              active_file = Some ''a@gmail.com''\<rparr>"

definition gstoreAB :: "(GmailAccountInfo, string) store" where
  "gstoreAB = \<lparr>registry = [(''a@gmail.com'', ginfoA), (''b@gmail.com'', ginfoB)],
               registry_file = Some [(''a@gmail.com'', ginfoA), (''b@gmail.com'', ginfoB)],
               cred_files = [''d/a@gmail.com.json'' \<mapsto> ''token-a'', ''d/b@gmail.com.json'' \<mapsto> ''token-b''],
               active_file = Some ''a@gmail.com''\<rparr>"

section \<open>The IMAP client\<close>

subsection \<open>Numbers in strings\<close>

text \<open>
  \<open>parseInt10\<close> is \<^verbatim>\<open>parseInt(s, 10)\<close>: leading white space is skipped, a sign is
  accepted, the longest run of decimal digits is read, and \<open>None\<close> stands for \<open>NaN\<close>.
  \<open>toStringInt\<close> is \<^verbatim>\<open>Number.prototype.toString\<close> on integers. Numbers are mathematical
  integers here; the rounding of doubles beyond 2^53 is outside the model.
\<close>

definition parseInt10 :: "string \<Rightarrow> int option" where
  "parseInt10 s =
     (let t = dropWhile isWhiteSpace s;
          neg = (case t of c # r \<Rightarrow> c = CHR ''-'' | [] \<Rightarrow> False);
          r = (case t of c # r \<Rightarrow> if c = CHR ''-'' \<or> c = CHR ''+'' then r else t | [] \<Rightarrow> t);
          ds = takeWhile isDigit r
      in if ds = [] then None
         else Some (if neg then - int (digitsToNat ds) else int (digitsToNat ds)))"

fun natToString :: "nat \<Rightarrow> string" where
  "natToString n =
     (if n < 10 then [char_of (48 + n)]
      else natToString (n div 10) @ [char_of (48 + n mod 10)])"

definition toStringInt :: "int \<Rightarrow> string" where
  "toStringInt i = (if i < 0 then CHR ''-'' # natToString (nat (- i)) else natToString (nat i))"

definition orDefault :: "string option \<Rightarrow> string \<Rightarrow> string" where
  "orDefault x d = (case x of None \<Rightarrow> d | Some v \<Rightarrow> if v = [] then d else v)"

definition slice :: "'a list \<Rightarrow> int \<Rightarrow> int \<Rightarrow> 'a list" where
  "slice xs start fin =
     (let n = int (length xs);
          k = (if start < 0 then max (n + start) 0 else min start n);
          e = (if fin < 0 then max (n + fin) 0 else min fin n)
      in take (nat (e - k)) (drop (nat k) xs))"

subsection \<open>The library: imapflow and mailparser as black boxes\<close>

datatype uid_range = Single "int option" | Several "int list"

record FolderInfo =
  path :: string
  folder_name :: string
  delimiter :: string
  specialUse :: "string option"
  folder_flags :: "string list"

record Address =
  address :: "string option"
  addr_name :: "string option"

record Envelope =
  env_subject :: "string option"
  env_from :: "Address list option"
  env_to :: "Address list option"
  env_date :: "nat option"

datatype BodyPart = BodyPart (disposition: "string option") (childNodes: "BodyPart list")

record FetchMessageObject =
  msg_uid :: int
  msg_envelope :: "Envelope option"
  msg_flags :: "string list option"
  msg_bodyStructure :: "BodyPart option"
  msg_source :: "string option"

record SearchCriteria =
  c_from :: "string option"
  c_to :: "string option"
  c_subject :: "string option"
  c_since :: "nat option"
  c_before :: "nat option"
  c_seen :: "bool option"
  c_flagged :: "bool option"
  c_body :: "string option"

datatype SearchQuery = MatchAll | Criteria SearchCriteria

record Attachment =
  contentId :: "string option"
  filename :: "string option"
  contentType :: string
  content :: string
  att_size :: nat

record ParsedMail =
  attachments :: "Attachment list option"

text \<open>
  A call of the library is a transition of the connection it talks to: it returns a
  value or the message of the error it throws. Nothing more is assumed of it.
\<close>

type_synonym ('v, 'a) libcall = "'v \<Rightarrow> (string + 'a) \<times> 'v"

record 'v ImapFlow =
  lib_usable :: "'v \<Rightarrow> bool"
  lib_connect :: "('v, unit) libcall"
  lib_logout :: "('v, unit) libcall"
  lib_mailboxOpen :: "string \<Rightarrow> ('v, unit) libcall"
  lib_list :: "('v, FolderInfo list) libcall"
  lib_search :: "SearchQuery \<Rightarrow> ('v, int list option) libcall"
  lib_fetch :: "int list \<Rightarrow> ('v, FetchMessageObject list) libcall"
  lib_fetchOne :: "int option \<Rightarrow> ('v, FetchMessageObject option) libcall"
  lib_messageMove :: "uid_range \<Rightarrow> string \<Rightarrow> ('v, unit) libcall"
  lib_messageFlagsAdd :: "uid_range \<Rightarrow> string list \<Rightarrow> ('v, unit) libcall"
  lib_messageDelete :: "uid_range \<Rightarrow> ('v, unit) libcall"

datatype command =
    ConnectCmd
  | LogoutCmd
  | MailboxOpenCmd string
  | ListCmd
  | SearchCmd SearchQuery
  | FetchCmd "int list"
  | FetchOneCmd "int option"
  | MessageMoveCmd uid_range string
  | MessageFlagsAddCmd uid_range "string list"
  | MessageDeleteCmd uid_range

subsection \<open>The client object\<close>

text \<open>
  \<open>client\<close> tells whether \<^verbatim>\<open>this.client\<close> is set, \<open>currentMailbox\<close> is the cached
  selected mailbox, \<open>conn\<close> is the state of the connection behind the library, and
  \<open>issued\<close> lists the protocol calls made so far, oldest first.
\<close>

record 'v ImapClient =
  client :: bool
  currentMailbox :: "string option"
  conn :: 'v
  issued :: "command list"

definition invoke :: "command \<Rightarrow> ('v, 'a) libcall \<Rightarrow> ('v ImapClient, 'a) action" where
  "invoke c f s =
     (case f (conn s) of
        (Inl m, v) \<Rightarrow> (Inl (ProtocolError m), s\<lparr>conn := v, issued := issued s @ [c]\<rparr>)
      | (Inr a, v) \<Rightarrow> (Inr a, s\<lparr>conn := v, issued := issued s @ [c]\<rparr>))"

definition tryCatch :: "('s, 'a) action \<Rightarrow> (error \<Rightarrow> ('s, 'a) action) \<Rightarrow> ('s, 'a) action" where
  "tryCatch m h s = (case m s of (Inl e, s') \<Rightarrow> h e s' | (Inr a, s') \<Rightarrow> (Inr a, s'))"


definition connect :: "'v ImapFlow \<Rightarrow> ('v ImapClient, unit) action" where
  "connect lib = (\<lambda>s.
     if client s then ret () s
     else andThen (modify (\<lambda>s. s\<lparr>client := True\<rparr>)) (\<lambda>_. invoke ConnectCmd (lib_connect lib)) s)"

definition disconnect :: "'v ImapFlow \<Rightarrow> ('v ImapClient, unit) action" where
  "disconnect lib = (\<lambda>s.
     if client s then
       andThen (invoke LogoutCmd (lib_logout lib))
         (\<lambda>_. modify (\<lambda>s. s\<lparr>client := False, currentMailbox := None\<rparr>)) s
     else ret () s)"

definition ensureConnected :: "'v ImapFlow \<Rightarrow> ('v ImapClient, unit) action" where
  "ensureConnected lib = (\<lambda>s.
     if \<not> client s then connect lib s
     else tryCatch
            (\<lambda>s. if \<not> lib_usable lib (conn s)
                  then andThen (disconnect lib) (\<lambda>_. connect lib) s
                  else ret () s)
            (\<lambda>err. andThen (disconnect lib) (\<lambda>_. connect lib)) s)"

definition selectMailbox :: "'v ImapFlow \<Rightarrow> string \<Rightarrow> ('v ImapClient, unit) action" where
  "selectMailbox lib mailbox =
     andThen (ensureConnected lib) (\<lambda>_. (\<lambda>s.
       if currentMailbox s \<noteq> Some mailbox then
         andThen (invoke (MailboxOpenCmd mailbox) (lib_mailboxOpen lib mailbox))
           (\<lambda>_. modify (\<lambda>s. s\<lparr>currentMailbox := Some mailbox\<rparr>)) s
       else ret () s))"

definition listFolders :: "'v ImapFlow \<Rightarrow> ('v ImapClient, FolderInfo list) action" where
  "listFolders lib =
     andThen (ensureConnected lib) (\<lambda>_. invoke ListCmd (lib_list lib))"

definition resetMailbox :: "('v ImapClient, unit) action" where
  "resetMailbox = modify (\<lambda>s. s\<lparr>currentMailbox := None\<rparr>)"




definition deletedFlag :: string where
  "deletedFlag = [CHR 0x5C] @ ''Deleted''"


definition trashUse :: string where
  "trashUse = [CHR 0x5C] @ ''Trash''"

definition isTrashFolder :: "FolderInfo \<Rightarrow> bool" where
  "isTrashFolder f =
     (specialUse f = Some trashUse \<or> includesStr (toLowerCase (path f)) ''trash''
        \<or> path f = ''Deleted Messages'')"

definition flagAndExpunge :: "'v ImapFlow \<Rightarrow> int option \<Rightarrow> ('v ImapClient, unit) action" where
  "flagAndExpunge lib uidNum =
     andThen (invoke (MessageFlagsAddCmd (Single uidNum) [deletedFlag])
                (lib_messageFlagsAdd lib (Single uidNum) [deletedFlag])) (\<lambda>_.
     invoke (MessageDeleteCmd (Single uidNum)) (lib_messageDelete lib (Single uidNum)))"

definition deleteEmail ::
  "'v ImapFlow \<Rightarrow> string \<Rightarrow> string option \<Rightarrow> bool option \<Rightarrow> ('v ImapClient, unit) action"
where
  "deleteEmail lib uid folder permanent =
     andThen (ensureConnected lib) (\<lambda>_.
     let mailbox = orDefault folder ''INBOX'' in
     andThen (selectMailbox lib mailbox) (\<lambda>_.
     let uidNum = parseInt10 uid in
     andThen
       (if permanent = Some True then flagAndExpunge lib uidNum
        else
          andThen (listFolders lib) (\<lambda>folders.
            case find isTrashFolder folders of
              Some trashFolder \<Rightarrow>
                invoke (MessageMoveCmd (Single uidNum) (path trashFolder))
                  (lib_messageMove lib (Single uidNum) (path trashFolder))
            | None \<Rightarrow> flagAndExpunge lib uidNum)) (\<lambda>_.
     resetMailbox)))"



subsection \<open>Search\<close>
















subsection \<open>Attachments\<close>

record EmailAttachment =
  partId :: string
  a_filename :: string
  a_mimeType :: string
  a_size :: nat

record Download =
  dl_content :: string
  dl_filename :: string
  dl_mimeType :: string

fun parseAttachmentsFrom :: "nat \<Rightarrow> Attachment list \<Rightarrow> EmailAttachment list" where
  "parseAttachmentsFrom index [] = []"
| "parseAttachmentsFrom index (att # rest) =
     \<lparr>partId = orDefault (contentId att) (toStringInt (int index)),
      a_filename = orDefault (filename att) (''attachment-'' @ toStringInt (int index)),
      a_mimeType = contentType att,
      a_size = att_size att\<rparr> # parseAttachmentsFrom (Suc index) rest"

definition parseAttachments :: "ParsedMail \<Rightarrow> EmailAttachment list" where
  "parseAttachments parsed =
     (case attachments parsed of None \<Rightarrow> [] | Some atts \<Rightarrow> parseAttachmentsFrom 0 atts)"

definition findAttachment :: "ParsedMail \<Rightarrow> string \<Rightarrow> Attachment option" where
  "findAttachment parsed pid =
     (case attachments parsed of
        None \<Rightarrow> None
      | Some atts \<Rightarrow> find (\<lambda>att. contentId att = Some pid \<or> filename att = Some pid) atts)"

definition attachmentAt :: "ParsedMail \<Rightarrow> int option \<Rightarrow> Attachment option" where
  "attachmentAt parsed index =
     (case attachments parsed of
        None \<Rightarrow> None
      | Some atts \<Rightarrow>
          (case index of
             None \<Rightarrow> None
           | Some i \<Rightarrow> if 0 \<le> i \<and> i < int (length atts) then Some (atts ! nat i) else None))"

definition extractAttachment :: "ParsedMail \<Rightarrow> string \<Rightarrow> error + Download" where
  "extractAttachment parsed pid =
     (case findAttachment parsed pid of
        None \<Rightarrow>
          (let index = parseInt10 pid in
           case attachmentAt parsed index of
             None \<Rightarrow> Inl (AttachmentNotFound pid)
           | Some attachmentByIndex \<Rightarrow>
               Inr \<lparr>dl_content = content attachmentByIndex,
                    dl_filename = orDefault (filename attachmentByIndex)
                       (''attachment-'' @ (case index of Some i \<Rightarrow> toStringInt i | None \<Rightarrow> ''NaN'')),
                    dl_mimeType = contentType attachmentByIndex\<rparr>)
      | Some attachment \<Rightarrow>
          Inr \<lparr>dl_content = content attachment,
               dl_filename = orDefault (filename attachment) ''attachment'',
               dl_mimeType = contentType attachment\<rparr>)"

text \<open>\<open>parser\<close> is mailparser's \<^verbatim>\<open>simpleParser\<close>, a function of the raw message source.\<close>

definition downloadAttachment ::
  "'v ImapFlow \<Rightarrow> (string \<Rightarrow> ParsedMail) \<Rightarrow> string \<Rightarrow> string \<Rightarrow> string option
     \<Rightarrow> ('v ImapClient, Download) action"
where
  "downloadAttachment lib parser uid pid folder =
     andThen (ensureConnected lib) (\<lambda>_.
     let mailbox = orDefault folder ''INBOX'' in
     andThen (selectMailbox lib mailbox) (\<lambda>_.
     let uidNum = parseInt10 uid in
     andThen (invoke (FetchOneCmd uidNum) (lib_fetchOne lib uidNum)) (\<lambda>message.
     case message of
       None \<Rightarrow> throw (MessageNotFound uid mailbox)
     | Some m \<Rightarrow>
         (case msg_source m of
            None \<Rightarrow> throw (MessageNotFound uid mailbox)
          | Some source \<Rightarrow>
              (case extractAttachment (parser source) pid of
                 Inl e \<Rightarrow> throw e
               | Inr d \<Rightarrow> ret d)))))"

text \<open>
  The reading of the claim about \<open>downloadAttachment\<close> in three separate tiers: a content-id
  match anywhere in the list first, only then a filename match, only then the position.
\<close>

definition threeTierMatch :: "Attachment list \<Rightarrow> string \<Rightarrow> Attachment option" where
  "threeTierMatch atts pid =
     (case find (\<lambda>att. contentId att = Some pid) atts of
        Some a \<Rightarrow> Some a
      | None \<Rightarrow>
          (case find (\<lambda>att. filename att = Some pid) atts of
             Some a \<Rightarrow> Some a
           | None \<Rightarrow> attachmentAt \<lparr>attachments = Some atts\<rparr> (parseInt10 pid)))"

subsection \<open>A simulated server for concrete runs\<close>

record sim =
  sim_usable :: bool
  sim_folders :: "FolderInfo list"
  sim_found :: "int list option"
  sim_mailbox :: "FetchMessageObject list"

text \<open>
  The simulated server accepts every call. A fetch answers with the matching messages in
  mailbox order, whatever the order of the requested UIDs, as an IMAP server does.
\<close>

definition simLib :: "sim ImapFlow" where
  "simLib =
     \<lparr>lib_usable = sim_usable,
      lib_connect = (\<lambda>v. (Inr (), v\<lparr>sim_usable := True\<rparr>)),
      lib_logout = (\<lambda>v. (Inr (), v)),
      lib_mailboxOpen = (\<lambda>m v. (Inr (), v)),
      lib_list = (\<lambda>v. (Inr (sim_folders v), v)),
      lib_search = (\<lambda>q v. (Inr (sim_found v), v)),
      lib_fetch = (\<lambda>uids v. (Inr (filter (\<lambda>m. msg_uid m \<in> set uids) (sim_mailbox v)), v)),
      lib_fetchOne = (\<lambda>u v. (Inr (case u of None \<Rightarrow> None
                                  | Some n \<Rightarrow> find (\<lambda>m. msg_uid m = n) (sim_mailbox v)), v)),
      lib_messageMove = (\<lambda>r d v. (Inr (), v)),
      lib_messageFlagsAdd = (\<lambda>r f v. (Inr (), v)),
      lib_messageDelete = (\<lambda>r v. (Inr (), v))\<rparr>"

definition folder :: "string \<Rightarrow> string option \<Rightarrow> FolderInfo" where
  "folder p use = \<lparr>path = p, folder_name = p, delimiter = ''/'', specialUse = use, folder_flags = []\<rparr>"

definition message :: "int \<Rightarrow> string \<Rightarrow> FetchMessageObject" where
  "message u src =
     \<lparr>msg_uid = u,
      msg_envelope = Some \<lparr>env_subject = Some ''hello'', env_from = None, env_to = None,
                           env_date = Some 7\<rparr>,
      msg_flags = None, msg_bodyStructure = None, msg_source = Some src\<rparr>"

definition simServer :: "FolderInfo list \<Rightarrow> sim" where
  "simServer fs =
     \<lparr>sim_usable = True, sim_folders = fs, sim_found = Some [1, 2, 3],
      sim_mailbox = [message 1 ''m1'', message 2 ''m2'', message 3 ''m3'']\<rparr>"

definition session :: "sim \<Rightarrow> string option \<Rightarrow> sim ImapClient" where
  "session v mb = \<lparr>client = True, currentMailbox = mb, conn = v, issued = []\<rparr>"



definition att :: "string option \<Rightarrow> string option \<Rightarrow> string \<Rightarrow> Attachment" where
  "att cid fn bytes =
     \<lparr>contentId = cid, filename = fn, contentType = ''application/octet-stream'',
      content = bytes, att_size = length bytes\<rparr>"

definition parsesTo :: "Attachment list \<Rightarrow> string \<Rightarrow> ParsedMail" where
  "parsesTo atts src = \<lparr>attachments = Some atts\<rparr>"

section \<open>Batch operations of the Gmail server\<close>

text \<open>
  \<open>processBatches\<close> walks the items in steps of \<open>batchSize\<close>. The function it is given talks
  to the remote service, whose state \<open>'w\<close> is threaded through every call, so the same item
  may fail in a batch and succeed alone. The batch size is a JavaScript number; integers
  are modelled, and the loop is a partial function because nothing bounds its length from
  below.
\<close>

fun retryEach ::
  "('t list \<Rightarrow> ('w, 'u list) action) \<Rightarrow> 't list \<Rightarrow> 'u list \<Rightarrow> ('t \<times> error) list \<Rightarrow> 'w
     \<Rightarrow> ('u list \<times> ('t \<times> error) list) \<times> 'w"
where
  "retryEach processFn [] successes failures w = ((successes, failures), w)"
| "retryEach processFn (item # rest) successes failures w =
     (case processFn [item] w of
        (Inr result, w') \<Rightarrow> retryEach processFn rest (successes @ result) failures w'
      | (Inl itemError, w') \<Rightarrow>
          retryEach processFn rest successes (failures @ [(item, itemError)]) w')"

definition processBatch ::
  "('t list \<Rightarrow> ('w, 'u list) action) \<Rightarrow> 't list \<Rightarrow> 'u list \<Rightarrow> ('t \<times> error) list \<Rightarrow> 'w
     \<Rightarrow> ('u list \<times> ('t \<times> error) list) \<times> 'w"
where
  "processBatch processFn batch successes failures w =
     (case processFn batch w of
        (Inr results, w') \<Rightarrow> ((successes @ results, failures), w')
      | (Inl err, w') \<Rightarrow> retryEach processFn batch successes failures w')"

partial_function (option) processBatchesFrom ::
  "('t list \<Rightarrow> ('w, 'u list) action) \<Rightarrow> 't list \<Rightarrow> int \<Rightarrow> int \<Rightarrow> 'u list
     \<Rightarrow> ('t \<times> error) list \<Rightarrow> 'w \<Rightarrow> (('u list \<times> ('t \<times> error) list) \<times> 'w) option"
where
  "processBatchesFrom processFn items batchSize i successes failures w =
     (if i < int (length items) then
        (case processBatch processFn (slice items i (i + batchSize)) successes failures w of
           ((successes', failures'), w') \<Rightarrow>
             processBatchesFrom processFn items batchSize (i + batchSize) successes' failures' w')
      else Some ((successes, failures), w))"

declare processBatchesFrom.simps [code]

definition processBatches ::
  "'t list \<Rightarrow> int \<Rightarrow> ('t list \<Rightarrow> ('w, 'u list) action) \<Rightarrow> 'w
     \<Rightarrow> (('u list \<times> ('t \<times> error) list) \<times> 'w) option"
where
  "processBatches items batchSize processFn w =
     processBatchesFrom processFn items batchSize 0 [] [] w"

text \<open>
  The handlers \<^verbatim>\<open>batch_modify_emails\<close> and \<^verbatim>\<open>batch_delete_emails\<close> pass a function that
  starts one remote call per message of the batch and awaits them all. \<open>apiCall\<close> is that
  remote call (modify with the request body, or delete). The calls of a batch run here in
  list order and all complete before the batch is judged; the first rejection is the
  error of the batch.
\<close>

fun promiseAll :: "('t \<Rightarrow> ('w, 'r) action) \<Rightarrow> 't list \<Rightarrow> ('w, 'r list) action" where
  "promiseAll f [] w = (Inr [], w)"
| "promiseAll f (x # xs) w =
     (case f x w of
        (r, w') \<Rightarrow>
          (case promiseAll f xs w' of
             (rs, w'') \<Rightarrow>
               ((case r of
                   Inl e \<Rightarrow> Inl e
                 | Inr a \<Rightarrow> (case rs of Inl e \<Rightarrow> Inl e | Inr as \<Rightarrow> Inr (a # as))), w'')))"

definition handleBatch :: "(string \<Rightarrow> ('w, unit) action) \<Rightarrow> string list \<Rightarrow> ('w, (string \<times> bool) list) action" where
  "handleBatch apiCall batch =
     promiseAll (\<lambda>messageId. andThen (apiCall messageId) (\<lambda>_. ret (messageId, True))) batch"

definition chosenBatchSize :: "int option \<Rightarrow> int" where
  "chosenBatchSize b = (case b of None \<Rightarrow> 50 | Some n \<Rightarrow> if n = 0 then 50 else n)"

record BatchSummary =
  successCount :: nat
  failureCount :: nat
  failedItems :: "(string \<times> error) list"

definition batchOperation ::
  "(string \<Rightarrow> ('w, unit) action) \<Rightarrow> string list \<Rightarrow> int option \<Rightarrow> 'w \<Rightarrow> (BatchSummary \<times> 'w) option"
where
  "batchOperation apiCall messageIds batchSizeArg w =
     (case processBatches messageIds (chosenBatchSize batchSizeArg) (handleBatch apiCall) w of
        None \<Rightarrow> None
      | Some ((successes, failures), w') \<Rightarrow>
          Some (\<lparr>successCount = length successes, failureCount = length failures,
                 failedItems = failures\<rparr>, w'))"

text \<open>
  The words of the specification: the list cut into consecutive chunks of at most the chunk
  size, and for each chunk the whole chunk first, then on failure every item of it alone.
\<close>

function chunksOf :: "nat \<Rightarrow> 'a list \<Rightarrow> 'a list list" where
  "chunksOf n xs = (if n = 0 \<or> xs = [] then [] else take n xs # chunksOf n (drop n xs))"
  by pat_completeness auto
termination
  by (relation "measure (\<lambda>(n, xs). length xs)") auto

fun processChunks ::
  "('t list \<Rightarrow> ('w, 'u list) action) \<Rightarrow> 't list list \<Rightarrow> 'u list \<Rightarrow> ('t \<times> error) list \<Rightarrow> 'w
     \<Rightarrow> ('u list \<times> ('t \<times> error) list) \<times> 'w"
where
  "processChunks processFn [] successes failures w = ((successes, failures), w)"
| "processChunks processFn (chunk # rest) successes failures w =
     (case processBatch processFn chunk successes failures w of
        ((successes', failures'), w') \<Rightarrow> processChunks processFn rest successes' failures' w')"

text \<open>A remote service for concrete runs: it rejects the identifiers listed in its state.\<close>

definition rejecting :: "string \<Rightarrow> (string list, unit) action" where
  "rejecting messageId w =
     (if messageId \<in> set w then (Inl (ProtocolError ''not found''), w) else (Inr (), w))"


section \<open>Properties of the account manager\<close>

lemmas act_defs = ret_def throw_def andThen_def modify_def whenA_def saveRegistry_def

lemmas sample_defs = credA_def credB_def infoA_def infoB_def storeA_def storeAB_def
  storeA_nofile_def ginfoA_def ginfoB_def gstoreA_def gstoreAB_def empty_store_def

subsection \<open>Resolution\<close>


lemma forIn_Nil [simp]: "forIn [] = []"
  by (simp add: forIn_def)

lemma length_forIn: "length (forIn r) = length r"
proof -
  have "length (filter (\<lambda>e. isArrayIndex (fst e)) r) + length (filter (\<lambda>e. \<not> isArrayIndex (fst e)) r)
          = length r"
    by (rule sum_length_filter_compl)
  then show ?thesis by (simp add: forIn_def)
qed








subsection \<open>Activation of the first account\<close>

lemma setActiveAccount_err:
  "setActiveAccount now x s = (Inl e, s') \<Longrightarrow> e = AccountNotFound x \<and> s' = s"
  by (auto simp: setActiveAccount_def act_defs Let_def split: if_splits)

lemma setActiveAccount_ok:
  "hasEntry (registry s) em \<Longrightarrow>
   setActiveAccount now em s = (Inr (), s\<lparr>active_file := Some em,
       registry := AList.map_entry em (\<lambda>i. i\<lparr>lastUsed := now\<rparr>) (registry s),
       registry_file := Some (AList.map_entry em (\<lambda>i. i\<lparr>lastUsed := now\<rparr>) (registry s))\<rparr>)"
  by (auto simp: setActiveAccount_def act_defs Let_def resolveEmailFromAlias_def)

lemma hasEntry_update: "hasEntry (AList.update k v r) k"
  by (simp add: hasEntry_def update_conv')

lemma length_listAccounts: "length (listAccounts r) = length r"
  by (simp add: listAccounts_def length_forIn)

lemma sole_entry:
  assumes "registered r a" "length (AList.update k v r) = 1"
  shows "a = k"
proof (cases r)
  case Nil
  with assms(1) show ?thesis by (simp add: registered_def)
next
  case (Cons p rest)
  obtain k' v' where p: "p = (k', v')" by (cases p)
  show ?thesis
  proof (cases "k' = k")
    case True
    with assms Cons p show ?thesis by (auto simp: registered_def split: if_splits)
  next
    case False
    with assms(2) Cons p have "length (AList.update k v rest) = 0" by simp
    then show ?thesis by (cases rest) (auto split: if_splits)
  qed
qed

lemma icloud_first:
  assumes "registry s = []"
  shows "fst (icloud_addAccount d n n' c al s) = Inr () \<and>
         active_file (snd (icloud_addAccount d n n' c al s)) = Some (cred_email c)"
  using assms
  by (cases al)
     (simp_all add: icloud_addAccount_def ensureAliasAvailableA_def act_defs Let_def
        length_listAccounts setActiveAccount_ok hasEntry_def)

lemma gmail_first:
  assumes "registry s = []"
  shows "fst (gmail_addAccount d n n' em c al scs s) = Inr () \<and>
         active_file (snd (gmail_addAccount d n n' em c al scs s)) = Some em"
  using assms
  by (simp add: gmail_addAccount_def act_defs Let_def length_listAccounts
        setActiveAccount_ok hasEntry_def)

lemma icloud_second:
  assumes "registered (registry s) A" "active_file s = Some A"
  shows "active_file (snd (icloud_addAccount d n n' c al s)) = Some A"
proof -
  have one: "length (AList.update (cred_email c) v (registry s)) = 1 \<Longrightarrow> A = cred_email c" for v
    using sole_entry[OF assms(1)] by blast
  show ?thesis
    using assms(2) one
    by (auto simp: icloud_addAccount_def ensureAliasAvailableA_def act_defs Let_def
        length_listAccounts setActiveAccount_ok hasEntry_update split: option.splits sum.splits)
qed

lemma gmail_second:
  assumes "registered (registry s) A" "active_file s = Some A"
  shows "active_file (snd (gmail_addAccount d n n' em c al scs s)) = Some A"
proof -
  have one: "length (AList.update em v (registry s)) = 1 \<Longrightarrow> A = em" for v
    using sole_entry[OF assms(1)] by blast
  show ?thesis
    using assms(2) one
    by (auto simp: gmail_addAccount_def act_defs Let_def length_listAccounts
        setActiveAccount_ok hasEntry_update)
qed

text \<open>
  C5. Auto-activation, for both managers: on an empty registry \<open>addAccount\<close> succeeds and
  leaves the active-account file holding the new account's email; when account \<open>A\<close> is
  registered and the active-account file holds \<open>A\<close>, the file still holds \<open>A\<close> after any
  \<open>addAccount\<close>, whether it succeeded or not.
\<close>

theorem addAccount_auto_activation:
  "(registry s = [] \<longrightarrow>
      fst (icloud_addAccount d n n' c al s) = Inr () \<and>
      active_file (snd (icloud_addAccount d n n' c al s)) = Some (cred_email c)) \<and>
   (registry g = [] \<longrightarrow>
      fst (gmail_addAccount d n n' em tok al scs g) = Inr () \<and>
      active_file (snd (gmail_addAccount d n n' em tok al scs g)) = Some em) \<and>
   (registered (registry s) A \<and> active_file s = Some A \<longrightarrow>
      active_file (snd (icloud_addAccount d n n' c al s)) = Some A) \<and>
   (registered (registry g) A' \<and> active_file g = Some A' \<longrightarrow>
      active_file (snd (gmail_addAccount d n n' em tok al scs g)) = Some A')"
  using icloud_first[of s d n n' c al] gmail_first[of g d n n' em tok al scs]
        icloud_second[of s A d n n' c al] gmail_second[of g A' d n n' em tok al scs]
  by blast

theorem addAccount_auto_activation_witness:
  "registry (empty_store :: (AccountInfo, AccountCredentials) store) = [] \<and>
   active_file (snd (icloud_addAccount ''d'' 1 1 credA None empty_store)) = Some ''a@icloud.com'' \<and>
   registry (empty_store :: (GmailAccountInfo, string) store) = [] \<and>
   active_file (snd (gmail_addAccount ''d'' 1 1 ''a@gmail.com'' ''token-a'' None None empty_store))
      = Some ''a@gmail.com'' \<and>
   registered (registry storeA) ''a@icloud.com'' \<and> active_file storeA = Some ''a@icloud.com'' \<and>
   active_file (snd (icloud_addAccount ''d'' 2 2 credB None storeA)) = Some ''a@icloud.com'' \<and>
   registered (registry gstoreA) ''a@gmail.com'' \<and> active_file gstoreA = Some ''a@gmail.com'' \<and>
   active_file (snd (gmail_addAccount ''d'' 2 2 ''b@gmail.com'' ''token-b'' None None gstoreA))
      = Some ''a@gmail.com''"
  using addAccount_auto_activation[where s = "empty_store" and g = "empty_store"
          and d = "''d''" and n = 1 and n' = 1 and c = credA and al = None
          and em = "''a@gmail.com''" and tok = "''token-a''" and scs = None]
        addAccount_auto_activation[where s = storeA and g = gstoreA
          and d = "''d''" and n = 2 and n' = 2 and c = credB and al = None
          and em = "''b@gmail.com''" and tok = "''token-b''" and scs = None
          and A = "''a@icloud.com''" and A' = "''a@gmail.com''"]
  by (simp add: sample_defs registered_def)

subsection \<open>Alias collisions leave the store untouched\<close>

lemma icloud_addAccount_atomic:
  assumes "icloud_addAccount d n n' c al s = (Inl e, s')" "is_collision e"
  shows "s' = s"
  using assms
  by (auto simp: icloud_addAccount_def ensureAliasAvailableA_def act_defs Let_def
        length_listAccounts is_collision_def
        split: if_splits option.splits sum.splits dest!: setActiveAccount_err)

lemma icloud_setAlias_atomic:
  assumes "icloud_setAlias x a s = (Inl e, s')" "is_collision e"
  shows "s' = s"
  using assms
  by (auto simp: icloud_setAlias_def ensureAliasAvailableA_def act_defs Let_def is_collision_def
       split: if_splits sum.splits)

lemma gmail_setAlias_atomic:
  assumes "gmail_setAlias x a s = (Inl e, s')" "is_collision e"
  shows "s' = s"
  using assms
  by (auto simp: gmail_setAlias_def act_defs Let_def is_collision_def
       split: if_splits sum.splits)

lemma gmail_addAccount_succeeds: "fst (gmail_addAccount d n n' em c al scs s) = Inr ()"
  by (auto simp: gmail_addAccount_def act_defs Let_def length_listAccounts
        setActiveAccount_ok hasEntry_update)

text \<open>
  C8. Collision atomicity: when the iCloud \<open>addAccount\<close>, the iCloud \<open>setAlias\<close> or the Gmail
  \<open>setAlias\<close> throws an alias-collision error, the whole store (registry in memory,
  registry file, credential files, active-account file) is exactly the store before the
  call. The Gmail \<open>addAccount\<close> has no collision check and never throws.
\<close>

theorem alias_collision_atomic:
  "(fst (icloud_addAccount d n n' c al s) = Inl e \<and> is_collision e \<longrightarrow>
      snd (icloud_addAccount d n n' c al s) = s) \<and>
   (fst (icloud_setAlias x a s) = Inl e' \<and> is_collision e' \<longrightarrow>
      snd (icloud_setAlias x a s) = s) \<and>
   (fst (gmail_setAlias x' a' (g :: (GmailAccountInfo, 'c) store)) = Inl e'' \<and> is_collision e'' \<longrightarrow>
      snd (gmail_setAlias x' a' g) = g) \<and>
   fst (gmail_addAccount d n n' em tok al scs g) = Inr ()"
proof (intro conjI impI)
  assume "fst (icloud_addAccount d n n' c al s) = Inl e \<and> is_collision e"
  then show "snd (icloud_addAccount d n n' c al s) = s"
    using icloud_addAccount_atomic[of d n n' c al s e "snd (icloud_addAccount d n n' c al s)"]
    by (metis prod.collapse)
next
  assume "fst (icloud_setAlias x a s) = Inl e' \<and> is_collision e'"
  then show "snd (icloud_setAlias x a s) = s"
    using icloud_setAlias_atomic[of x a s e' "snd (icloud_setAlias x a s)"]
    by (metis prod.collapse)
next
  assume "fst (gmail_setAlias x' a' g) = Inl e'' \<and> is_collision e''"
  then show "snd (gmail_setAlias x' a' g) = g"
    using gmail_setAlias_atomic[of x' a' g e'' "snd (gmail_setAlias x' a' g)"]
    by (metis prod.collapse)
next
  show "fst (gmail_addAccount d n n' em tok al scs g) = Inr ()"
    by (rule gmail_addAccount_succeeds)
qed

theorem alias_collision_atomic_witness:
  "fst (icloud_addAccount ''d'' 3 3 credB (Some ''home'') storeAB) = Inl (AliasInUse ''home'' ''a@icloud.com'') \<and>
   is_collision (AliasInUse ''home'' ''a@icloud.com'') \<and>
   snd (icloud_addAccount ''d'' 3 3 credB (Some ''home'') storeAB) = storeAB \<and>
   fst (icloud_setAlias ''work'' ''a@icloud.com'' storeAB) = Inl (AliasIsEmail ''a@icloud.com'' ''a@icloud.com'') \<and>
   is_collision (AliasIsEmail ''a@icloud.com'' ''a@icloud.com'') \<and>
   snd (icloud_setAlias ''work'' ''a@icloud.com'' storeAB) = storeAB \<and>
   fst (gmail_setAlias ''b@gmail.com'' ''home'' gstoreAB) = Inl (AliasInUse ''home'' ''a@gmail.com'') \<and>
   snd (gmail_setAlias ''b@gmail.com'' ''home'' gstoreAB) = gstoreAB"
proof -
  have h1: "fst (icloud_addAccount ''d'' 3 3 credB (Some ''home'') storeAB)
              = Inl (AliasInUse ''home'' ''a@icloud.com'')"
    by code_simp
  have h2: "fst (icloud_setAlias ''work'' ''a@icloud.com'' storeAB)
              = Inl (AliasIsEmail ''a@icloud.com'' ''a@icloud.com'')"
    by code_simp
  have h3: "fst (gmail_setAlias ''b@gmail.com'' ''home'' gstoreAB)
              = Inl (AliasInUse ''home'' ''a@gmail.com'')"
    by code_simp
  have c: "is_collision (AliasInUse u v)" "is_collision (AliasIsEmail u v)" for u v
    by (simp_all add: is_collision_def)
  show ?thesis
    using alias_collision_atomic[where s = storeAB and d = "''d''" and n = 3 and n' = 3
            and c = credB and al = "Some ''home''" and e = "AliasInUse ''home'' ''a@icloud.com''"
            and x = "''work''" and a = "''a@icloud.com''"
            and e' = "AliasIsEmail ''a@icloud.com'' ''a@icloud.com''"
            and g = gstoreAB and x' = "''b@gmail.com''" and a' = "''home''"
            and e'' = "AliasInUse ''home'' ''a@gmail.com''"
            and em = "''c@gmail.com''" and tok = "''token-c''" and scs = None]
          h1 h2 h3 c
    by simp
qed

subsection \<open>Removing an account whose credential file is gone\<close>




subsection \<open>Alias uniqueness\<close>

text \<open>
  C1. Alias uniqueness does not hold on every sequence of calls. In the iCloud manager,
  after \<open>addAccount(a)\<close>, \<open>setAlias(a, ''b@icloud.com'')\<close> and \<open>addAccount(b@icloud.com)\<close>,
  all three successful, the alias of \<open>a\<close> is the email of the other account: the check
  compares a new alias with the existing emails, and never a new email with the existing
  aliases. In the Gmail manager two \<open>addAccount\<close> calls with the same alias both succeed
  and leave two entries sharing it.
\<close>

theorem alias_uniqueness_broken:
  "(let (r1, s1) = icloud_addAccount ''d'' 1 1 credA None empty_store;
        (r2, s2) = icloud_setAlias ''a@icloud.com'' ''b@icloud.com'' s1;
        (r3, s3) = icloud_addAccount ''d'' 2 2 credB None s2
    in r1 = Inr () \<and> r2 = Inr () \<and> r3 = Inr () \<and> aliasShadowsEmail (registry s3)) \<and>
   (let (r1, g1) = gmail_addAccount ''d'' 1 1 ''a@gmail.com'' ''token-a'' (Some ''work'') None empty_store;
        (r2, g2) = gmail_addAccount ''d'' 2 2 ''b@gmail.com'' ''token-b'' (Some ''work'') None g1
    in r1 = Inr () \<and> r2 = Inr () \<and> shareAlias (registry g2))"
  by code_simp

section \<open>Properties of the IMAP client\<close>

lemma andThen_Inr:
  "andThen m f s = (Inr b, s') \<Longrightarrow> \<exists>a s1. m s = (Inr a, s1) \<and> f a s1 = (Inr b, s')"
  by (auto simp: andThen_def split: prod.splits sum.splits)

lemma andThen_step: "m s = (Inr a, s1) \<Longrightarrow> andThen m f s = f a s1"
  by (simp add: andThen_def)

lemma andThen_fail: "m s = (Inl e, s1) \<Longrightarrow> andThen m f s = (Inl e, s1)"
  by (simp add: andThen_def)

lemma invoke_cases:
  "invoke c f s = (r, s') \<Longrightarrow>
     currentMailbox s' = currentMailbox s \<and> client s' = client s \<and> issued s' = issued s @ [c]"
  by (auto simp: invoke_def split: prod.splits sum.splits)

lemma invoke_ok:
  "f (conn s) = (Inr a, v) \<Longrightarrow> invoke c f s = (Inr a, s\<lparr>conn := v, issued := issued s @ [c]\<rparr>)"
  by (simp add: invoke_def)

lemma invoke_err:
  "f (conn s) = (Inl m, v) \<Longrightarrow>
     invoke c f s = (Inl (ProtocolError m), s\<lparr>conn := v, issued := issued s @ [c]\<rparr>)"
  by (simp add: invoke_def)

lemma connect_ok: "connect lib s = (Inr u, s') \<Longrightarrow> client s'"
  by (auto simp: connect_def act_defs invoke_def split: if_splits prod.splits sum.splits)

lemma ensureConnected_steady:
  "client s \<Longrightarrow> lib_usable lib (conn s) \<Longrightarrow> ensureConnected lib s = (Inr (), s)"
  by (simp add: ensureConnected_def tryCatch_def ret_def)

lemma ensureConnected_ok: "ensureConnected lib s = (Inr u, s') \<Longrightarrow> client s'"
  by (auto simp: ensureConnected_def tryCatch_def ret_def split: if_splits prod.splits sum.splits
        dest!: andThen_Inr connect_ok)



lemma selectMailbox_ok:
  assumes "selectMailbox lib mb s = (Inr u, s')"
  shows "currentMailbox s' = Some mb \<and> client s'"
proof -
  from assms obtain a s1 where e: "ensureConnected lib s = (Inr a, s1)"
    and r: "(if currentMailbox s1 \<noteq> Some mb
             then andThen (invoke (MailboxOpenCmd mb) (lib_mailboxOpen lib mb))
                    (\<lambda>_. modify (\<lambda>s. s\<lparr>currentMailbox := Some mb\<rparr>)) s1
             else ret () s1) = (Inr u, s')"
    unfolding selectMailbox_def by (blast dest: andThen_Inr)
  have c: "client s1" using e by (rule ensureConnected_ok)
  show ?thesis
  proof (cases "currentMailbox s1 = Some mb")
    case True
    with r c show ?thesis by (simp add: ret_def)
  next
    case False
    with r obtain a2 s2 where i: "invoke (MailboxOpenCmd mb) (lib_mailboxOpen lib mb) s1 = (Inr a2, s2)"
      and m: "modify (\<lambda>s. s\<lparr>currentMailbox := Some mb\<rparr>) s2 = (Inr u, s')"
      by (auto dest!: andThen_Inr)
    from invoke_cases[OF i] c m show ?thesis by (auto simp: modify_def)
  qed
qed









subsection \<open>Deleting a message\<close>

lemma startsWith_iff: "startsWith s p \<longleftrightarrow> (\<exists>q. s = p @ q)"
  by (induction s p rule: startsWith.induct) auto

lemma includesStr_iff: "includesStr s sub \<longleftrightarrow> (\<exists>p q. s = p @ sub @ q)"
proof (induction s)
  case Nil
  then show ?case by simp
next
  case (Cons c cs)
  show ?case
  proof
    assume "includesStr (c # cs) sub"
    then consider "startsWith (c # cs) sub" | "includesStr cs sub" by auto
    then show "\<exists>p q. c # cs = p @ sub @ q"
    proof cases
      case 1
      then obtain q where "c # cs = sub @ q" by (auto simp: startsWith_iff)
      then have "c # cs = [] @ sub @ q" by simp
      then show ?thesis by blast
    next
      case 2
      with Cons obtain p q where "cs = p @ sub @ q" by blast
      then have "c # cs = (c # p) @ sub @ q" by simp
      then show ?thesis by blast
    qed
  next
    assume "\<exists>p q. c # cs = p @ sub @ q"
    then obtain p q where pq: "c # cs = p @ sub @ q" by blast
    show "includesStr (c # cs) sub"
    proof (cases p)
      case Nil
      with pq have "startsWith (c # cs) sub" by (auto simp: startsWith_iff)
      then show ?thesis by simp
    next
      case (Cons a p')
      with pq have "cs = p' @ sub @ q" by simp
      with Cons.IH show ?thesis by auto
    qed
  qed
qed

lemma listFolders_steady:
  "client s \<Longrightarrow> lib_usable lib (conn s) \<Longrightarrow> lib_list lib (conn s) = (Inr fs, v) \<Longrightarrow>
     listFolders lib s = (Inr fs, s\<lparr>conn := v, issued := issued s @ [ListCmd]\<rparr>)"
  by (simp add: listFolders_def andThen_def ensureConnected_steady invoke_def)

lemma find_first:
  "i < length xs \<Longrightarrow> P (xs ! i) \<Longrightarrow> \<forall>j < i. \<not> P (xs ! j) \<Longrightarrow> find P xs = Some (xs ! i)"
  by (auto simp: find_Some_iff)

lemma find_none: "\<forall>x \<in> set xs. \<not> P x \<Longrightarrow> find P xs = None"
  by (simp add: find_None_iff)

text \<open>
  C3. Trash fallback. The client is connected and its connection usable, the mailbox has
  been selected (state \<open>s1\<close>) and the listing of the folders answered \<open>folders\<close>; \<open>permanent\<close>
  is false or absent. Then the message is moved to the first folder of the listing that is
  trash-like (special use \<^verbatim>\<open>\Trash\<close>, or a path containing \<open>trash\<close> in any letter case, or
  the path \<open>Deleted Messages\<close>); and when no folder of the listing is trash-like, the message
  is flagged \<^verbatim>\<open>\Deleted\<close> and expunged, no move is issued, and the call returns normally
  once the server has accepted both commands.
\<close>

theorem deleteEmail_trash_fallback:
  assumes "client s" and "lib_usable lib (conn s)"
    and "selectMailbox lib (orDefault fo ''INBOX'') s = (Inr (), s1)"
    and "lib_usable lib (conn s1)"
    and "lib_list lib (conn s1) = (Inr folders, v2)"
    and "permanent \<noteq> Some True"
  shows
    "(i < length folders \<and> isTrashFolder (folders ! i) \<and>
        (\<forall>j < i. \<not> isTrashFolder (folders ! j)) \<and>
        lib_messageMove lib (Single (parseInt10 uid)) (path (folders ! i)) v2 = (Inr (), v3) \<longrightarrow>
      deleteEmail lib uid fo permanent s =
        (Inr (), s1\<lparr>conn := v3,
                    issued := issued s1 @
                      [ListCmd, MessageMoveCmd (Single (parseInt10 uid)) (path (folders ! i))],
                    currentMailbox := None\<rparr>)) \<and>
     ((\<forall>f \<in> set folders. \<not> isTrashFolder f) \<and>
        lib_messageFlagsAdd lib (Single (parseInt10 uid)) [deletedFlag] v2 = (Inr (), v4) \<and>
        lib_messageDelete lib (Single (parseInt10 uid)) v4 = (Inr (), v5) \<longrightarrow>
      deleteEmail lib uid fo permanent s =
        (Inr (), s1\<lparr>conn := v5,
                    issued := issued s1 @
                      [ListCmd, MessageFlagsAddCmd (Single (parseInt10 uid)) [deletedFlag],
                       MessageDeleteCmd (Single (parseInt10 uid))],
                    currentMailbox := None\<rparr>))"
proof -
  have c1: "client s1" using selectMailbox_ok[OF assms(3)] by simp
  have lf: "listFolders lib s1 = (Inr folders, s1\<lparr>conn := v2, issued := issued s1 @ [ListCmd]\<rparr>)"
    using listFolders_steady[OF c1 assms(4,5)] .
  have pre: "deleteEmail lib uid fo permanent s =
      andThen (case find isTrashFolder folders of
                 Some trashFolder \<Rightarrow>
                   invoke (MessageMoveCmd (Single (parseInt10 uid)) (path trashFolder))
                     (lib_messageMove lib (Single (parseInt10 uid)) (path trashFolder))
               | None \<Rightarrow> flagAndExpunge lib (parseInt10 uid))
        (\<lambda>_. resetMailbox) (s1\<lparr>conn := v2, issued := issued s1 @ [ListCmd]\<rparr>)"
    using assms(6)
    by (simp add: deleteEmail_def Let_def andThen_def ensureConnected_steady[OF assms(1,2)]
          assms(3) lf)
  show ?thesis
  proof (intro conjI impI)
    assume a: "i < length folders \<and> isTrashFolder (folders ! i) \<and>
        (\<forall>j < i. \<not> isTrashFolder (folders ! j)) \<and>
        lib_messageMove lib (Single (parseInt10 uid)) (path (folders ! i)) v2 = (Inr (), v3)"
    then have f: "find isTrashFolder folders = Some (folders ! i)"
      by (simp add: find_first)
    show "deleteEmail lib uid fo permanent s =
        (Inr (), s1\<lparr>conn := v3,
                    issued := issued s1 @
                      [ListCmd, MessageMoveCmd (Single (parseInt10 uid)) (path (folders ! i))],
                    currentMailbox := None\<rparr>)"
      using a by (simp add: pre f andThen_def invoke_def resetMailbox_def modify_def)
  next
    assume a: "(\<forall>f \<in> set folders. \<not> isTrashFolder f) \<and>
        lib_messageFlagsAdd lib (Single (parseInt10 uid)) [deletedFlag] v2 = (Inr (), v4) \<and>
        lib_messageDelete lib (Single (parseInt10 uid)) v4 = (Inr (), v5)"
    then have f: "find isTrashFolder folders = None"
      by (simp add: find_none)
    show "deleteEmail lib uid fo permanent s =
        (Inr (), s1\<lparr>conn := v5,
                    issued := issued s1 @
                      [ListCmd, MessageFlagsAddCmd (Single (parseInt10 uid)) [deletedFlag],
                       MessageDeleteCmd (Single (parseInt10 uid))],
                    currentMailbox := None\<rparr>)"
      using a
      by (simp add: pre f flagAndExpunge_def andThen_def invoke_def resetMailbox_def modify_def)
  qed
qed

theorem deleteEmail_trash_fallback_witness:
  "deleteEmail simLib ''1'' None None
      (session (simServer [folder ''INBOX'' None, folder ''Deleted Messages'' None, folder ''Trash'' None]) None)
    = (Inr (),
       \<lparr>client = True, currentMailbox = None,
        conn = simServer [folder ''INBOX'' None, folder ''Deleted Messages'' None, folder ''Trash'' None],
        issued = [MailboxOpenCmd ''INBOX'', ListCmd,
                  MessageMoveCmd (Single (Some 1)) ''Deleted Messages'']\<rparr>) \<and>
   deleteEmail simLib ''1'' None None
      (session (simServer [folder ''INBOX'' None, folder ''Sent'' None]) None)
    = (Inr (),
       \<lparr>client = True, currentMailbox = None,
        conn = simServer [folder ''INBOX'' None, folder ''Sent'' None],
        issued = [MailboxOpenCmd ''INBOX'', ListCmd,
                  MessageFlagsAddCmd (Single (Some 1)) [deletedFlag],
                  MessageDeleteCmd (Single (Some 1))]\<rparr>)"
proof -
  let ?fs = "[folder ''INBOX'' None, folder ''Deleted Messages'' None, folder ''Trash'' None]"
  let ?gs = "[folder ''INBOX'' None, folder ''Sent'' None]"
  let ?s = "session (simServer ?fs) None"
  let ?t = "session (simServer ?gs) None"
  let ?s1 = "\<lparr>client = True, currentMailbox = Some ''INBOX'', conn = simServer ?fs,
              issued = [MailboxOpenCmd ''INBOX'']\<rparr>"
  let ?t1 = "\<lparr>client = True, currentMailbox = Some ''INBOX'', conn = simServer ?gs,
              issued = [MailboxOpenCmd ''INBOX'']\<rparr>"
  have a1: "client ?s" "lib_usable simLib (conn ?s)" "client ?t" "lib_usable simLib (conn ?t)"
    by code_simp+
  have a3: "selectMailbox simLib (orDefault None ''INBOX'') ?s = (Inr (), ?s1)"
           "selectMailbox simLib (orDefault None ''INBOX'') ?t = (Inr (), ?t1)"
    by code_simp+
  have a4: "lib_usable simLib (conn ?s1)" "lib_usable simLib (conn ?t1)"
    by code_simp+
  have a5: "lib_list simLib (conn ?s1) = (Inr ?fs, simServer ?fs)"
           "lib_list simLib (conn ?t1) = (Inr ?gs, simServer ?gs)"
    by code_simp+
  have a6: "(None :: bool option) \<noteq> Some True" by simp
  have n0: "\<not> isTrashFolder (folder ''INBOX'' None)" "\<not> isTrashFolder (folder ''Sent'' None)"
    by code_simp+
  have y1: "isTrashFolder (folder ''Deleted Messages'' None)"
    by code_simp
  have b1: "(1::nat) < length ?fs \<and> isTrashFolder (?fs ! 1) \<and>
        (\<forall>j < 1. \<not> isTrashFolder (?fs ! j)) \<and>
        lib_messageMove simLib (Single (parseInt10 ''1'')) (path (?fs ! 1)) (simServer ?fs)
          = (Inr (), simServer ?fs)"
    using n0 y1 by (simp add: simLib_def)
  have b2: "(\<forall>f \<in> set ?gs. \<not> isTrashFolder f) \<and>
        lib_messageFlagsAdd simLib (Single (parseInt10 ''1'')) [deletedFlag] (simServer ?gs)
          = (Inr (), simServer ?gs) \<and>
        lib_messageDelete simLib (Single (parseInt10 ''1'')) (simServer ?gs) = (Inr (), simServer ?gs)"
    using n0 by (simp add: simLib_def)
  have p: "parseInt10 ''1'' = Some 1" by code_simp
  have q: "path (?fs ! 1) = ''Deleted Messages''" by code_simp
  from deleteEmail_trash_fallback[OF a1(1,2) a3(1) a4(1) a5(1) a6,
          where i = 1 and uid = "''1''" and ?v3.0 = "simServer ?fs"
            and ?v4.0 = "simServer ?fs" and ?v5.0 = "simServer ?fs"] b1
  have r1: "deleteEmail simLib ''1'' None None ?s =
        (Inr (), ?s1\<lparr>conn := simServer ?fs,
                    issued := issued ?s1 @
                      [ListCmd, MessageMoveCmd (Single (parseInt10 ''1'')) (path (?fs ! 1))],
                    currentMailbox := None\<rparr>)"
    by blast
  from deleteEmail_trash_fallback[OF a1(3,4) a3(2) a4(2) a5(2) a6,
          where i = 0 and uid = "''1''" and ?v3.0 = "simServer ?gs"
            and ?v4.0 = "simServer ?gs" and ?v5.0 = "simServer ?gs"] b2
  have r2: "deleteEmail simLib ''1'' None None ?t =
        (Inr (), ?t1\<lparr>conn := simServer ?gs,
                    issued := issued ?t1 @
                      [ListCmd, MessageFlagsAddCmd (Single (parseInt10 ''1'')) [deletedFlag],
                       MessageDeleteCmd (Single (parseInt10 ''1''))],
                    currentMailbox := None\<rparr>)"
    by blast
  show ?thesis
    unfolding r1 r2 p q by simp
qed

subsection \<open>Search\<close>












subsection \<open>Attachments\<close>

lemma find_either_no_cid:
  "\<forall>a \<in> set atts. contentId a \<noteq> Some pid \<Longrightarrow>
     find (\<lambda>att. contentId att = Some pid \<or> filename att = Some pid) atts
       = find (\<lambda>att. filename att = Some pid) atts"
  by (induction atts) auto

lemma find_either_no_filename:
  "\<forall>a \<in> set atts. filename a \<noteq> Some pid \<Longrightarrow>
     find (\<lambda>att. contentId att = Some pid \<or> filename att = Some pid) atts
       = find (\<lambda>att. contentId att = Some pid) atts"
  by (induction atts) auto

lemma extract_agrees_with_tiers:
  assumes "attachments parsed = Some atts"
    and "(\<forall>a \<in> set atts. contentId a \<noteq> Some pid) \<or> (\<forall>a \<in> set atts. filename a \<noteq> Some pid)"
  shows "map_sum id dl_content (extractAttachment parsed pid) =
           (case threeTierMatch atts pid of
              None \<Rightarrow> Inl (AttachmentNotFound pid)
            | Some a \<Rightarrow> Inr (content a))"
  using assms(2)
proof
  assume n: "\<forall>a \<in> set atts. contentId a \<noteq> Some pid"
  then have c: "find (\<lambda>att. contentId att = Some pid) atts = None"
    by (simp add: find_None_iff)
  show ?thesis
    by (simp add: extractAttachment_def findAttachment_def threeTierMatch_def assms(1)
          find_either_no_cid[OF n] c attachmentAt_def Let_def split: option.splits)
next
  assume n: "\<forall>a \<in> set atts. filename a \<noteq> Some pid"
  then have c: "find (\<lambda>att. filename att = Some pid) atts = None"
    by (simp add: find_None_iff)
  show ?thesis
    by (simp add: extractAttachment_def findAttachment_def threeTierMatch_def assms(1)
          find_either_no_filename[OF n] c attachmentAt_def Let_def split: option.splits)
qed

lemma downloadAttachment_after_fetch:
  assumes "client s" and "lib_usable lib (conn s)"
    and "selectMailbox lib (orDefault fo ''INBOX'') s = (Inr (), s1)"
    and "lib_fetchOne lib (parseInt10 uid) (conn s1) = (Inr (Some m), v2)"
    and "msg_source m = Some src"
  shows "downloadAttachment lib parser uid pid fo s =
           (extractAttachment (parser src) pid,
            s1\<lparr>conn := v2, issued := issued s1 @ [FetchOneCmd (parseInt10 uid)]\<rparr>)"
  by (simp add: downloadAttachment_def Let_def andThen_def ensureConnected_steady[OF assms(1,2)]
        assms(3) invoke_def assms(4,5) ret_def throw_def split: sum.splits)

lemma extract_first_match:
  assumes "attachments parsed = Some atts" and "i < length atts"
    and "contentId (atts ! i) = Some pid \<or> filename (atts ! i) = Some pid"
    and "\<forall>j < i. contentId (atts ! j) \<noteq> Some pid \<and> filename (atts ! j) \<noteq> Some pid"
  shows "extractAttachment parsed pid =
           Inr \<lparr>dl_content = content (atts ! i),
                dl_filename = orDefault (filename (atts ! i)) ''attachment'',
                dl_mimeType = contentType (atts ! i)\<rparr>"
proof -
  have "find (\<lambda>att. contentId att = Some pid \<or> filename att = Some pid) atts = Some (atts ! i)"
    using assms(2,3,4) by (auto simp: find_Some_iff)
  then show ?thesis
    by (simp add: extractAttachment_def findAttachment_def assms(1))
qed

lemma extract_by_index:
  assumes "attachments parsed = Some atts"
    and "\<forall>a \<in> set atts. contentId a \<noteq> Some pid \<and> filename a \<noteq> Some pid"
    and "parseInt10 pid = Some k" and "0 \<le> k" and "k < int (length atts)"
  shows "extractAttachment parsed pid =
           Inr \<lparr>dl_content = content (atts ! nat k),
                dl_filename = orDefault (filename (atts ! nat k)) (''attachment-'' @ toStringInt k),
                dl_mimeType = contentType (atts ! nat k)\<rparr>"
proof -
  have "find (\<lambda>att. contentId att = Some pid \<or> filename att = Some pid) atts = None"
    using assms(2) by (auto simp: find_None_iff)
  then show ?thesis
    using assms(3,4,5)
    by (simp add: extractAttachment_def findAttachment_def attachmentAt_def assms(1) Let_def)
qed

lemma extract_not_found:
  assumes "attachments parsed = Some atts"
    and "\<forall>a \<in> set atts. contentId a \<noteq> Some pid \<and> filename a \<noteq> Some pid"
    and "\<forall>k. parseInt10 pid = Some k \<longrightarrow> k < 0 \<or> int (length atts) \<le> k"
  shows "extractAttachment parsed pid = Inl (AttachmentNotFound pid)"
proof -
  have "find (\<lambda>att. contentId att = Some pid \<or> filename att = Some pid) atts = None"
    using assms(2) by (auto simp: find_None_iff)
  then show ?thesis
    using assms(3)
    by (auto simp: extractAttachment_def findAttachment_def attachmentAt_def assms(1) Let_def
          split: option.splits)
qed

lemma parseInt10_zero: "parseInt10 ''0'' = Some 0"
  by code_simp

lemma toStringInt_zero: "toStringInt 0 = ''0''"
  by code_simp

text \<open>
  C9, as the code has it. The client is connected and its connection usable, the mailbox
  has been selected (state \<open>s1\<close>), the message has been fetched with its source, and the
  parser finds the attachments \<open>atts\<close> in it. Then \<open>downloadAttachment\<close> returns the first
  attachment of the list whose content-id or filename equals the identifier (one pass,
  either field); when there is none, the attachment at the position parsed from the
  identifier; and when that position is not a number or out of range it throws "attachment
  not found". Wherever the identifier does not occur both as a content-id and as a
  filename, this is the three-tier match. The identifier \<open>0\<close> returns the bytes of the first
  attachment provided no attachment has content-id or filename \<open>0\<close>.
\<close>

theorem downloadAttachment_match:
  assumes "client s" and "lib_usable lib (conn s)"
    and "selectMailbox lib (orDefault fo ''INBOX'') s = (Inr (), s1)"
    and "lib_fetchOne lib (parseInt10 uid) (conn s1) = (Inr (Some m), v2)"
    and "msg_source m = Some src"
    and "attachments (parser src) = Some atts"
  shows
    "(i < length atts \<and>
      (contentId (atts ! i) = Some pid \<or> filename (atts ! i) = Some pid) \<and>
      (\<forall>j < i. contentId (atts ! j) \<noteq> Some pid \<and> filename (atts ! j) \<noteq> Some pid) \<longrightarrow>
        downloadAttachment lib parser uid pid fo s =
          (Inr \<lparr>dl_content = content (atts ! i),
                dl_filename = orDefault (filename (atts ! i)) ''attachment'',
                dl_mimeType = contentType (atts ! i)\<rparr>,
           s1\<lparr>conn := v2, issued := issued s1 @ [FetchOneCmd (parseInt10 uid)]\<rparr>)) \<and>
     ((\<forall>a \<in> set atts. contentId a \<noteq> Some pid \<and> filename a \<noteq> Some pid) \<and>
      parseInt10 pid = Some k \<and> 0 \<le> k \<and> k < int (length atts) \<longrightarrow>
        downloadAttachment lib parser uid pid fo s =
          (Inr \<lparr>dl_content = content (atts ! nat k),
                dl_filename = orDefault (filename (atts ! nat k)) (''attachment-'' @ toStringInt k),
                dl_mimeType = contentType (atts ! nat k)\<rparr>,
           s1\<lparr>conn := v2, issued := issued s1 @ [FetchOneCmd (parseInt10 uid)]\<rparr>)) \<and>
     ((\<forall>a \<in> set atts. contentId a \<noteq> Some pid \<and> filename a \<noteq> Some pid) \<and>
      (\<forall>k. parseInt10 pid = Some k \<longrightarrow> k < 0 \<or> int (length atts) \<le> k) \<longrightarrow>
        downloadAttachment lib parser uid pid fo s =
          (Inl (AttachmentNotFound pid),
           s1\<lparr>conn := v2, issued := issued s1 @ [FetchOneCmd (parseInt10 uid)]\<rparr>)) \<and>
     ((\<forall>a \<in> set atts. contentId a \<noteq> Some pid) \<or> (\<forall>a \<in> set atts. filename a \<noteq> Some pid) \<longrightarrow>
        map_sum id dl_content (fst (downloadAttachment lib parser uid pid fo s)) =
          (case threeTierMatch atts pid of
             None \<Rightarrow> Inl (AttachmentNotFound pid)
           | Some a \<Rightarrow> Inr (content a))) \<and>
     (atts \<noteq> [] \<and> (\<forall>a \<in> set atts. contentId a \<noteq> Some ''0'' \<and> filename a \<noteq> Some ''0'') \<longrightarrow>
        fst (downloadAttachment lib parser uid ''0'' fo s) =
          Inr \<lparr>dl_content = content (atts ! 0),
               dl_filename = orDefault (filename (atts ! 0)) ''attachment-0'',
               dl_mimeType = contentType (atts ! 0)\<rparr>)"
proof -
  note run = downloadAttachment_after_fetch[OF assms(1-5)]
  show ?thesis
  proof (intro conjI impI)
    assume "i < length atts \<and>
      (contentId (atts ! i) = Some pid \<or> filename (atts ! i) = Some pid) \<and>
      (\<forall>j < i. contentId (atts ! j) \<noteq> Some pid \<and> filename (atts ! j) \<noteq> Some pid)"
    then show "downloadAttachment lib parser uid pid fo s =
          (Inr \<lparr>dl_content = content (atts ! i),
                dl_filename = orDefault (filename (atts ! i)) ''attachment'',
                dl_mimeType = contentType (atts ! i)\<rparr>,
           s1\<lparr>conn := v2, issued := issued s1 @ [FetchOneCmd (parseInt10 uid)]\<rparr>)"
      using extract_first_match[OF assms(6), of i pid] by (simp add: run)
  next
    assume "(\<forall>a \<in> set atts. contentId a \<noteq> Some pid \<and> filename a \<noteq> Some pid) \<and>
      parseInt10 pid = Some k \<and> 0 \<le> k \<and> k < int (length atts)"
    then show "downloadAttachment lib parser uid pid fo s =
          (Inr \<lparr>dl_content = content (atts ! nat k),
                dl_filename = orDefault (filename (atts ! nat k)) (''attachment-'' @ toStringInt k),
                dl_mimeType = contentType (atts ! nat k)\<rparr>,
           s1\<lparr>conn := v2, issued := issued s1 @ [FetchOneCmd (parseInt10 uid)]\<rparr>)"
      using extract_by_index[OF assms(6), of pid k] by (simp add: run)
  next
    assume "(\<forall>a \<in> set atts. contentId a \<noteq> Some pid \<and> filename a \<noteq> Some pid) \<and>
      (\<forall>k. parseInt10 pid = Some k \<longrightarrow> k < 0 \<or> int (length atts) \<le> k)"
    then show "downloadAttachment lib parser uid pid fo s =
          (Inl (AttachmentNotFound pid),
           s1\<lparr>conn := v2, issued := issued s1 @ [FetchOneCmd (parseInt10 uid)]\<rparr>)"
      using extract_not_found[OF assms(6), of pid] by (simp add: run)
  next
    assume "(\<forall>a \<in> set atts. contentId a \<noteq> Some pid) \<or> (\<forall>a \<in> set atts. filename a \<noteq> Some pid)"
    then show "map_sum id dl_content (fst (downloadAttachment lib parser uid pid fo s)) =
          (case threeTierMatch atts pid of
             None \<Rightarrow> Inl (AttachmentNotFound pid)
           | Some a \<Rightarrow> Inr (content a))"
      using extract_agrees_with_tiers[OF assms(6), of pid] by (simp add: run)
  next
    assume a: "atts \<noteq> [] \<and> (\<forall>a \<in> set atts. contentId a \<noteq> Some ''0'' \<and> filename a \<noteq> Some ''0'')"
    then have "0 < int (length atts)" by simp
    with a show "fst (downloadAttachment lib parser uid ''0'' fo s) =
          Inr \<lparr>dl_content = content (atts ! 0),
               dl_filename = orDefault (filename (atts ! 0)) ''attachment-0'',
               dl_mimeType = contentType (atts ! 0)\<rparr>"
      using extract_by_index[OF assms(6), of "''0''" 0]
      by (simp add: run parseInt10_zero toStringInt_zero)
  qed
qed

theorem downloadAttachment_match_witness:
  "downloadAttachment simLib (parsesTo [att None None ''A'', att (Some ''cid1'') (Some ''pic.png'') ''B''])
      ''1'' ''pic.png'' None (session (simServer []) None)
    = (Inr \<lparr>dl_content = ''B'', dl_filename = ''pic.png'', dl_mimeType = ''application/octet-stream''\<rparr>,
       \<lparr>client = True, currentMailbox = Some ''INBOX'', conn = simServer [],
        issued = [MailboxOpenCmd ''INBOX'', FetchOneCmd (Some 1)]\<rparr>) \<and>
   downloadAttachment simLib (parsesTo [att None None ''A'', att (Some ''cid1'') (Some ''pic.png'') ''B''])
      ''1'' ''0'' None (session (simServer []) None)
    = (Inr \<lparr>dl_content = ''A'', dl_filename = ''attachment-0'', dl_mimeType = ''application/octet-stream''\<rparr>,
       \<lparr>client = True, currentMailbox = Some ''INBOX'', conn = simServer [],
        issued = [MailboxOpenCmd ''INBOX'', FetchOneCmd (Some 1)]\<rparr>) \<and>
   downloadAttachment simLib (parsesTo [att None None ''A'', att (Some ''cid1'') (Some ''pic.png'') ''B''])
      ''1'' ''7'' None (session (simServer []) None)
    = (Inl (AttachmentNotFound ''7''),
       \<lparr>client = True, currentMailbox = Some ''INBOX'', conn = simServer [],
        issued = [MailboxOpenCmd ''INBOX'', FetchOneCmd (Some 1)]\<rparr>) \<and>
   map_sum id dl_content
     (fst (downloadAttachment simLib
             (parsesTo [att None None ''A'', att (Some ''cid1'') (Some ''pic.png'') ''B''])
             ''1'' ''pic.png'' None (session (simServer []) None)))
    = Inr ''B''"
proof -
  let ?atts = "[att None None ''A'', att (Some ''cid1'') (Some ''pic.png'') ''B'']"
  let ?s = "session (simServer []) None"
  let ?s1 = "\<lparr>client = True, currentMailbox = Some ''INBOX'', conn = simServer [],
              issued = [MailboxOpenCmd ''INBOX'']\<rparr>"
  have a1: "client ?s" "lib_usable simLib (conn ?s)"
    by code_simp+
  have a3: "selectMailbox simLib (orDefault None ''INBOX'') ?s = (Inr (), ?s1)"
    by code_simp
  have a4: "lib_fetchOne simLib (parseInt10 ''1'') (conn ?s1) = (Inr (Some (message 1 ''m1'')), simServer [])"
    by code_simp
  have a5: "msg_source (message 1 ''m1'') = Some ''m1''"
    by code_simp
  have a6: "attachments (parsesTo ?atts ''m1'') = Some ?atts"
    by (simp add: parsesTo_def)
  note T = downloadAttachment_match[where parser = "parsesTo ?atts" and src = "''m1''",
             OF a1 a3 a4 a5 a6]
  have p: "parseInt10 ''1'' = Some 1" "parseInt10 ''0'' = Some 0" "parseInt10 ''7'' = Some 7"
          "parseInt10 ''pic.png'' = None"
    by code_simp+
  have z: "toStringInt 0 = ''0''" by code_simp
  have b1: "(1::nat) < length ?atts \<and>
      (contentId (?atts ! 1) = Some ''pic.png'' \<or> filename (?atts ! 1) = Some ''pic.png'') \<and>
      (\<forall>j < 1. contentId (?atts ! j) \<noteq> Some ''pic.png'' \<and> filename (?atts ! j) \<noteq> Some ''pic.png'')"
    by (simp add: att_def)
  have b2: "(\<forall>a \<in> set ?atts. contentId a \<noteq> Some ''0'' \<and> filename a \<noteq> Some ''0'') \<and>
      parseInt10 ''0'' = Some 0 \<and> (0::int) \<le> 0 \<and> 0 < int (length ?atts)"
    by (simp add: att_def p)
  have b3: "(\<forall>a \<in> set ?atts. contentId a \<noteq> Some ''7'' \<and> filename a \<noteq> Some ''7'') \<and>
      (\<forall>k. parseInt10 ''7'' = Some k \<longrightarrow> k < 0 \<or> int (length ?atts) \<le> k)"
    by (simp add: att_def p)
  have b4: "(\<forall>a \<in> set ?atts. contentId a \<noteq> Some ''pic.png'') \<or>
            (\<forall>a \<in> set ?atts. filename a \<noteq> Some ''pic.png'')"
    by (simp add: att_def)
  have t4: "(case threeTierMatch ?atts ''pic.png'' of
               None \<Rightarrow> Inl (AttachmentNotFound ''pic.png'')
             | Some a \<Rightarrow> Inr (content a)) = Inr ''B''"
    by code_simp
  have r1: "downloadAttachment simLib (parsesTo ?atts) ''1'' ''pic.png'' None ?s =
          (Inr \<lparr>dl_content = content (?atts ! 1),
                dl_filename = orDefault (filename (?atts ! 1)) ''attachment'',
                dl_mimeType = contentType (?atts ! 1)\<rparr>,
           ?s1\<lparr>conn := simServer [], issued := issued ?s1 @ [FetchOneCmd (parseInt10 ''1'')]\<rparr>)"
    using T[where i = 1 and pid = "''pic.png''" and k = 0] b1 by blast
  have r2: "downloadAttachment simLib (parsesTo ?atts) ''1'' ''0'' None ?s =
          (Inr \<lparr>dl_content = content (?atts ! nat 0),
                dl_filename = orDefault (filename (?atts ! nat 0)) (''attachment-'' @ toStringInt 0),
                dl_mimeType = contentType (?atts ! nat 0)\<rparr>,
           ?s1\<lparr>conn := simServer [], issued := issued ?s1 @ [FetchOneCmd (parseInt10 ''1'')]\<rparr>)"
    using T[where i = 0 and pid = "''0''" and k = 0] b2 by blast
  have r3: "downloadAttachment simLib (parsesTo ?atts) ''1'' ''7'' None ?s =
          (Inl (AttachmentNotFound ''7''),
           ?s1\<lparr>conn := simServer [], issued := issued ?s1 @ [FetchOneCmd (parseInt10 ''1'')]\<rparr>)"
    using T[where i = 0 and pid = "''7''" and k = 0] b3 by blast
  have r4: "map_sum id dl_content (fst (downloadAttachment simLib (parsesTo ?atts) ''1'' ''pic.png'' None ?s))
              = Inr ''B''"
    using T[where i = 1 and pid = "''pic.png''" and k = 0] b4 unfolding t4 by blast
  show ?thesis
    unfolding r1 r2 r3 using r4 unfolding r1
    by (simp add: att_def orDefault_def p z)
qed

text \<open>
  The claim as stated fails on two inputs. When the identifier is the filename of the first
  attachment and the content-id of the second, the first is returned although a content-id
  match exists: the code looks for either field in one pass. And the identifier \<open>0\<close> does
  not return the bytes of a first attachment without content-id and filename when a later
  attachment is named \<open>0\<close>.
\<close>

theorem downloadAttachment_counterexample:
  "map_sum id dl_content
     (fst (downloadAttachment simLib
             (parsesTo [att None (Some ''x'') ''A'', att (Some ''x'') (Some ''y'') ''B''])
             ''1'' ''x'' None (session (simServer []) None)))
     = Inr ''A'' \<and>
   map_option content
     (threeTierMatch [att None (Some ''x'') ''A'', att (Some ''x'') (Some ''y'') ''B''] ''x'')
     = Some ''B'' \<and>
   map_sum id dl_content
     (fst (downloadAttachment simLib
             (parsesTo [att None None ''A'', att None (Some ''0'') ''B''])
             ''1'' ''0'' None (session (simServer []) None)))
     = Inr ''B''"
  by code_simp

section \<open>Properties of the batch operations\<close>

declare chunksOf.simps [simp del]

lemma chunksOf_concat: "0 < n \<Longrightarrow> concat (chunksOf n xs) = xs"
proof (induction n xs rule: chunksOf.induct)
  case (1 n xs)
  then show ?case
    by (subst chunksOf.simps) auto
qed

lemma chunksOf_sizes: "c \<in> set (chunksOf n xs) \<Longrightarrow> c \<noteq> [] \<and> length c \<le> n"
proof (induction n xs rule: chunksOf.induct)
  case (1 n xs)
  from "1.prems" have ne: "\<not> (n = 0 \<or> xs = [])"
    by (subst (asm) chunksOf.simps) (auto split: if_splits)
  from "1.prems" ne have "c = take n xs \<or> c \<in> set (chunksOf n (drop n xs))"
    by (subst (asm) chunksOf.simps) auto
  then show ?case
  proof
    assume "c = take n xs"
    with ne show ?thesis by auto
  next
    assume "c \<in> set (chunksOf n (drop n xs))"
    with "1.IH" ne show ?thesis by blast
  qed
qed

lemma slice_chunk:
  assumes "0 \<le> i" "i < int (length xs)" "1 \<le> b"
  shows "slice xs i (i + b) = take (nat b) (drop (nat i) xs)"
proof -
  have "take (nat (min (i + b) (int (length xs)) - i)) (drop (nat i) xs)
          = take (nat b) (drop (nat i) xs)"
  proof (cases "i + b \<le> int (length xs)")
    case True
    then show ?thesis by (simp add: min_def)
  next
    case False
    then have "nat (int (length xs) - i) = length (drop (nat i) xs)"
      using assms by simp
    moreover have "length (drop (nat i) xs) \<le> nat b" using False assms by simp
    ultimately show ?thesis using False by (simp add: min_def)
  qed
  then show ?thesis
    using assms by (simp add: slice_def Let_def min_def)
qed

lemma processBatchesFrom_chunks:
  assumes "1 \<le> b" "0 \<le> i"
  shows "processBatchesFrom f items b i successes failures w =
           Some (processChunks f (chunksOf (nat b) (drop (nat i) items)) successes failures w)"
  using assms(2)
proof (induction "length items - nat i" arbitrary: i successes failures w rule: less_induct)
  case less
  show ?case
  proof (cases "i < int (length items)")
    case False
    then have "drop (nat i) items = []" using less.prems by simp
    then have "chunksOf (nat b) (drop (nat i) items) = []"
      by (subst chunksOf.simps) simp
    with False show ?thesis
      by (subst processBatchesFrom.simps) simp
  next
    case True
    obtain s' f' w' where pb:
      "processBatch f (take (nat b) (drop (nat i) items)) successes failures w = ((s', f'), w')"
      by (metis prod.exhaust)
    have ne: "drop (nat i) items \<noteq> []" using True less.prems by simp
    have ch: "chunksOf (nat b) (drop (nat i) items) =
                take (nat b) (drop (nat i) items) # chunksOf (nat b) (drop (nat (i + b)) items)"
    proof -
      have "nat b + nat i = nat (i + b)" using assms(1) less.prems by simp
      then have "drop (nat b) (drop (nat i) items) = drop (nat (i + b)) items"
        by simp
      then show ?thesis
        using ne assms(1) by (subst chunksOf.simps) simp
    qed
    have dec: "length items - nat (i + b) < length items - nat i"
      using True assms(1) less.prems by linarith
    have ih: "processBatchesFrom f items b (i + b) s' f' w' =
                Some (processChunks f (chunksOf (nat b) (drop (nat (i + b)) items)) s' f' w')"
      using less.hyps[OF dec] assms(1) less.prems by simp
    show ?thesis
      using True
      by (subst processBatchesFrom.simps)
         (simp add: slice_chunk[OF less.prems True assms(1)] pb ch ih)
  qed
qed

lemma processBatchesFrom_returns:
  "processBatchesFrom f items b i successes failures w = Some y \<Longrightarrow>
     \<not> (b \<le> 0 \<and> i < int (length items))"
proof (induction rule: processBatchesFrom.raw_induct[rotated 1, consumes 1])
  case (1 loop f items b i successes failures w y)
  show ?case
  proof
    assume a: "b \<le> 0 \<and> i < int (length items)"
    obtain s' f' w' where pb:
      "processBatch f (slice items i (i + b)) successes failures w = ((s', f'), w')"
      by (metis prod.exhaust)
    from 1(2) a pb have "loop f items b (i + b) s' f' w' = Some y"
      by simp
    from 1(1)[OF this] a show False by simp
  qed
qed

lemma processBatchesFrom_diverges:
  assumes "b \<le> 0" "i < int (length items)"
  shows "processBatchesFrom f items b i successes failures w = None"
  using processBatchesFrom_returns[of f items b i successes failures w] assms
  by (cases "processBatchesFrom f items b i successes failures w") auto

lemma promiseAll_results:
  "promiseAll (\<lambda>m. andThen (apiCall m) (\<lambda>_. ret (m, True))) batch w = (Inr rs, w')
     \<Longrightarrow> rs = map (\<lambda>m. (m, True)) batch"
proof (induction batch arbitrary: w rs w')
  case Nil
  then show ?case by simp
next
  case (Cons x xs)
  then show ?case
    by (auto simp: andThen_def ret_def split: prod.splits sum.splits)
qed

lemma handleBatch_results:
  "handleBatch apiCall batch w = (Inr rs, w') \<Longrightarrow> map fst rs = batch"
  by (auto simp: handleBatch_def dest!: promiseAll_results simp: comp_def)

lemma retryEach_partition:
  "retryEach (handleBatch apiCall) batch successes failures w = ((s', f'), w') \<Longrightarrow>
     mset (map fst s') + mset (map fst f') =
       mset (map fst successes) + mset (map fst failures) + mset batch"
proof (induction batch arbitrary: successes failures w)
  case Nil
  then show ?case by simp
next
  case (Cons item rest)
  obtain r w1 where c: "handleBatch apiCall [item] w = (r, w1)" by (metis prod.exhaust)
  show ?case
  proof (cases r)
    case (Inl e)
    with Cons.prems c
    have "retryEach (handleBatch apiCall) rest successes (failures @ [(item, e)]) w1 = ((s', f'), w')"
      by simp
    from Cons.IH[OF this] show ?thesis by simp
  next
    case (Inr res)
    with c have "map fst res = [item]" by (auto dest: handleBatch_results)
    moreover from Cons.prems c Inr
    have "retryEach (handleBatch apiCall) rest (successes @ res) failures w1 = ((s', f'), w')"
      by simp
    from Cons.IH[OF this]
    have "mset (map fst s') + mset (map fst f') =
            mset (map fst successes) + mset (map fst res) + mset (map fst failures) + mset rest"
      by simp
    ultimately show ?thesis by simp
  qed
qed

lemma processBatch_partition:
  assumes "processBatch (handleBatch apiCall) batch successes failures w = ((s', f'), w')"
  shows "mset (map fst s') + mset (map fst f') =
           mset (map fst successes) + mset (map fst failures) + mset batch"
proof -
  obtain r w1 where c: "handleBatch apiCall batch w = (r, w1)" by (metis prod.exhaust)
  show ?thesis
  proof (cases r)
    case (Inl e)
    with assms c show ?thesis
      by (auto simp: processBatch_def dest: retryEach_partition)
  next
    case (Inr res)
    with c have "map fst res = batch" by (auto dest: handleBatch_results)
    with assms c Inr show ?thesis
      by (auto simp: processBatch_def)
  qed
qed

lemma processChunks_partition:
  "processChunks (handleBatch apiCall) chunks successes failures w = ((s', f'), w') \<Longrightarrow>
     mset (map fst s') + mset (map fst f') =
       mset (map fst successes) + mset (map fst failures) + mset (concat chunks)"
proof (induction chunks arbitrary: successes failures w)
  case Nil
  then show ?case by simp
next
  case (Cons chunk rest)
  obtain s1 f1 w1 where pb:
    "processBatch (handleBatch apiCall) chunk successes failures w = ((s1, f1), w1)"
    by (metis prod.exhaust)
  with Cons.prems
  have "processChunks (handleBatch apiCall) rest s1 f1 w1 = ((s', f'), w')" by simp
  from Cons.IH[OF this] processBatch_partition[OF pb]
  show ?case by simp
qed

text \<open>
  C2, as the code has it. For every list of identifiers and every chunk size of at least
  one, \<open>processBatches\<close> returns, and its result is that of going through the consecutive
  chunks of at most the chunk size in order, each chunk as a whole first and, when that
  fails, each of its items alone. The chunks are not empty, none is longer than the chunk
  size, and together they are the input list. With the function the batch handlers pass,
  the identifiers of the successes and of the failures together are exactly the input
  identifiers, each as often as it was given, so the two counts add up to the length of
  the input: no failure of an item or chunk stops the rest.
\<close>

theorem processBatches_partition:
  assumes "1 \<le> batchSize"
  shows
    "processBatches items batchSize processFn w =
        Some (processChunks processFn (chunksOf (nat batchSize) items) [] [] w) \<and>
     concat (chunksOf (nat batchSize) items) = items \<and>
     (\<forall>c \<in> set (chunksOf (nat batchSize) items). c \<noteq> [] \<and> length c \<le> nat batchSize) \<and>
     (\<exists>successes failures v'.
        processBatches ids batchSize (handleBatch apiCall) v = Some ((successes, failures), v') \<and>
        mset (map fst successes) + mset (map fst failures) = mset ids \<and>
        length successes + length failures = length ids)"
proof (intro conjI)
  show "processBatches items batchSize processFn w =
          Some (processChunks processFn (chunksOf (nat batchSize) items) [] [] w)"
    using processBatchesFrom_chunks[OF assms, of 0 processFn items "[]" "[]" w]
    by (simp add: processBatches_def)
  show "concat (chunksOf (nat batchSize) items) = items"
    using assms by (simp add: chunksOf_concat)
  show "\<forall>c \<in> set (chunksOf (nat batchSize) items). c \<noteq> [] \<and> length c \<le> nat batchSize"
    using chunksOf_sizes by blast
  obtain s' f' v' where r:
    "processChunks (handleBatch apiCall) (chunksOf (nat batchSize) ids) [] [] v = ((s', f'), v')"
    by (metis prod.exhaust)
  have run: "processBatches ids batchSize (handleBatch apiCall) v = Some ((s', f'), v')"
    using processBatchesFrom_chunks[OF assms, of 0 "handleBatch apiCall" ids "[]" "[]" v] r
    by (simp add: processBatches_def)
  have m: "mset (map fst s') + mset (map fst f') = mset ids"
    using processChunks_partition[OF r] assms by (simp add: chunksOf_concat)
  have "size (mset (map fst s') + mset (map fst f')) = size (mset ids)"
    by (simp only: m)
  then have l: "length s' + length f' = length ids" by simp
  show "\<exists>successes failures v'.
        processBatches ids batchSize (handleBatch apiCall) v = Some ((successes, failures), v') \<and>
        mset (map fst successes) + mset (map fst failures) = mset ids \<and>
        length successes + length failures = length ids"
    using run m l by blast
qed

theorem processBatches_partition_witness:
  "processBatches [''a'', ''b'', ''c'', ''d'', ''e''] 2 (handleBatch rejecting) [''c''] =
     Some (([(''a'', True), (''b'', True), (''d'', True), (''e'', True)],
            [(''c'', ProtocolError ''not found'')]), [''c'']) \<and>
   concat (chunksOf 2 [''a'', ''b'', ''c'', ''d'', ''e'']) = [''a'', ''b'', ''c'', ''d'', ''e'']"
proof -
  have h: "(1::int) \<le> 2" by simp
  have e: "processChunks (handleBatch rejecting) (chunksOf (nat 2) [''a'', ''b'', ''c'', ''d'', ''e''])
              [] [] [''c''] =
           (([(''a'', True), (''b'', True), (''d'', True), (''e'', True)],
             [(''c'', ProtocolError ''not found'')]), [''c''])"
    by code_simp
  have n: "nat 2 = 2" by simp
  note T = processBatches_partition[OF h, of "[''a'', ''b'', ''c'', ''d'', ''e'']"
            "handleBatch rejecting" "[''c'']" "[''a'', ''b'', ''c'', ''d'', ''e'']" rejecting "[''c'']"]
  have r1: "processBatches [''a'', ''b'', ''c'', ''d'', ''e''] 2 (handleBatch rejecting) [''c''] =
     Some (([(''a'', True), (''b'', True), (''d'', True), (''e'', True)],
            [(''c'', ProtocolError ''not found'')]), [''c''])"
    using T[THEN conjunct1] unfolding e .
  have r2: "concat (chunksOf 2 [''a'', ''b'', ''c'', ''d'', ''e'']) = [''a'', ''b'', ''c'', ''d'', ''e'']"
    using T[THEN conjunct2, THEN conjunct1] unfolding n .
  show ?thesis
    using r1 r2 by (rule conjI)
qed

text \<open>
  The claim as stated, for every chunk size, fails for a negative one: the loop index
  moves away from the end of the list and the operation never returns. A size of zero is
  replaced by 50 in the handlers.
\<close>

theorem processBatches_counterexample:
  "processBatches [''a''] (- 1) (handleBatch rejecting) [] = None \<and>
   batchOperation rejecting [''a''] (Some (- 1)) [] = None \<and>
   chosenBatchSize (Some 0) = 50"
  by (simp add: processBatches_def batchOperation_def chosenBatchSize_def
        processBatchesFrom_diverges)

end
